theory Spec2Isabelle
  imports Complex_Main "HOL-Library.Multiset"
begin

section \<open>JavaScript values as processData sees them\<close>

text \<open>
  The function under study is \<^verbatim>\<open>processData\<close> of
  \<^verbatim>\<open>src/backend/routes/analytics.js\<close> (lines 18 to 133): a filter, group/aggregate
  and sort pipeline over spreadsheet rows. Its behaviour rests on the coercions of the
  language (loose equality, \<^verbatim>\<open>Number\<close>, \<^verbatim>\<open>String\<close>, property lookup through
  \<^verbatim>\<open>Object.prototype\<close>, the key order of \<^verbatim>\<open>Object.entries\<close>), so these are
  embedded first.

  Numbers. A double is \<open>NaN\<close>, one of the two infinities, or finite; a finite double
  is modelled by the real number it denotes. The two zeros are one value: the program
  never divides by a cell value, so the sign of zero is not observable in it.
\<close>

datatype jsnum = NaN | Fin real | PosInf | NegInf

text \<open>
  What the real numbers cannot determine is a parameter \<open>T\<close> of the model, and every
  theorem holds for every \<open>T\<close>:
  \<^item> \<open>nearest T x\<close> is the double an exact result \<open>x\<close> is rounded to (to nearest, ties
    to even, an infinity on overflow), for an \<open>x\<close> that is not an integer of magnitude
    up to \<open>2^53\<close>;
  \<^item> \<open>square T x\<close> and \<open>root T x\<close> are \<^verbatim>\<open>Math.pow(x, 2)\<close> and \<^verbatim>\<open>Math.sqrt(x)\<close>
    on a finite \<open>x\<close>, which the language leaves to the implementation;
  \<^item> \<open>num_text T x\<close> is \<^verbatim>\<open>String(x)\<close> for a finite \<open>x\<close> that is not an integer of
    magnitude below \<open>2^53\<close>: the shortest decimal that reads back as the same double.
\<close>

record numerics =
  nearest :: "real \<Rightarrow> jsnum"
  square :: "real \<Rightarrow> jsnum"
  root :: "real \<Rightarrow> jsnum"
  num_text :: "real \<Rightarrow> string"

text \<open>
  Rounding an exact result to a double. Every integer of magnitude up to \<open>2^53\<close> is a
  double, so rounding leaves it as it is. The sum, difference and quotient of two finite
  doubles and the value of a numeral are the exact ones, rounded.
\<close>

definition rounded :: "numerics \<Rightarrow> real \<Rightarrow> jsnum" where
  "rounded T x = (if x = of_int \<lfloor>x\<rfloor> \<and> \<bar>x\<bar> \<le> 2 ^ 53 then Fin x else nearest T x)"

text \<open>
  Values: the primitives a worksheet cell or a JSON configuration can hold, arrays (the
  \<^verbatim>\<open>value\<close> of a \<^verbatim>\<open>between\<close>, \<^verbatim>\<open>in\<close> or \<^verbatim>\<open>not_in\<close> filter), and
  \<open>JProto k\<close>, the member of \<^verbatim>\<open>Object.prototype\<close> named \<open>k\<close>, which
  \<^verbatim>\<open>row[column]\<close> yields when the row has no own property \<open>k\<close>. Dates and other
  objects are not modelled.
\<close>

datatype jsval =
    JUndef
  | JNull
  | JBool bool
  | JNum jsnum
  | JStr string
  | JArr "jsval list"
  | JProto string

datatype error = TypeError

subsection \<open>Number operations\<close>

fun js_neg :: "jsnum \<Rightarrow> jsnum" where
  "js_neg NaN = NaN"
| "js_neg (Fin a) = Fin (- a)"
| "js_neg PosInf = NegInf"
| "js_neg NegInf = PosInf"

fun js_add :: "numerics \<Rightarrow> jsnum \<Rightarrow> jsnum \<Rightarrow> jsnum" where
  "js_add T NaN _ = NaN"
| "js_add T _ NaN = NaN"
| "js_add T (Fin a) (Fin b) = rounded T (a + b)"
| "js_add T PosInf NegInf = NaN"
| "js_add T NegInf PosInf = NaN"
| "js_add T PosInf _ = PosInf"
| "js_add T NegInf _ = NegInf"
| "js_add T (Fin a) PosInf = PosInf"
| "js_add T (Fin a) NegInf = NegInf"

definition js_sub :: "numerics \<Rightarrow> jsnum \<Rightarrow> jsnum \<Rightarrow> jsnum" where
  "js_sub T a b = js_add T a (js_neg b)"

text \<open>Division; a zero divisor is the positive zero (the program divides by array lengths and by 2).\<close>

fun js_div :: "numerics \<Rightarrow> jsnum \<Rightarrow> jsnum \<Rightarrow> jsnum" where
  "js_div T NaN _ = NaN"
| "js_div T _ NaN = NaN"
| "js_div T (Fin a) (Fin b) =
     (if b = 0 then (if a = 0 then NaN else if 0 < a then PosInf else NegInf)
      else rounded T (a / b))"
| "js_div T (Fin a) PosInf = Fin 0"
| "js_div T (Fin a) NegInf = Fin 0"
| "js_div T PosInf (Fin b) = (if b < 0 then NegInf else PosInf)"
| "js_div T NegInf (Fin b) = (if b < 0 then PosInf else NegInf)"
| "js_div T PosInf _ = NaN"
| "js_div T NegInf _ = NaN"

text \<open>\<^verbatim>\<open>Math.pow(x, 2)\<close> and \<^verbatim>\<open>Math.sqrt(x)\<close>.\<close>

fun js_pow2 :: "numerics \<Rightarrow> jsnum \<Rightarrow> jsnum" where
  "js_pow2 T NaN = NaN"
| "js_pow2 T (Fin a) = square T a"
| "js_pow2 T PosInf = PosInf"
| "js_pow2 T NegInf = PosInf"

fun js_sqrt :: "numerics \<Rightarrow> jsnum \<Rightarrow> jsnum" where
  "js_sqrt T NaN = NaN"
| "js_sqrt T (Fin a) = (if a < 0 then NaN else root T a)"
| "js_sqrt T PosInf = PosInf"
| "js_sqrt T NegInf = NaN"

text \<open>The comparisons \<^verbatim>\<open><\<close> and \<^verbatim>\<open>==\<close> on numbers: false as soon as one side is \<open>NaN\<close>.\<close>

fun num_lt :: "jsnum \<Rightarrow> jsnum \<Rightarrow> bool" where
  "num_lt NaN _ = False"
| "num_lt _ NaN = False"
| "num_lt (Fin a) (Fin b) = (a < b)"
| "num_lt NegInf NegInf = False"
| "num_lt NegInf _ = True"
| "num_lt _ NegInf = False"
| "num_lt PosInf _ = False"
| "num_lt (Fin a) PosInf = True"

definition num_eq :: "jsnum \<Rightarrow> jsnum \<Rightarrow> bool" where
  "num_eq a b = (a \<noteq> NaN \<and> a = b)"

definition num_gt :: "jsnum \<Rightarrow> jsnum \<Rightarrow> bool" where
  "num_gt a b = num_lt b a"

definition num_ge :: "jsnum \<Rightarrow> jsnum \<Rightarrow> bool" where
  "num_ge a b = (num_lt b a \<or> num_eq a b)"

definition num_le :: "jsnum \<Rightarrow> jsnum \<Rightarrow> bool" where
  "num_le a b = (num_lt a b \<or> num_eq a b)"

definition isNaN :: "jsnum \<Rightarrow> bool" where
  "isNaN n = (n = NaN)"

subsection \<open>Strings\<close>

text \<open>
  A string is a list of code units; the model has the code units below 256. White space
  is what \<^verbatim>\<open>Number\<close> strips: tab, line feed, vertical tab, form feed, carriage return,
  space and the no-break space.
\<close>

definition code :: "char \<Rightarrow> nat" where
  "code c = of_char c"

definition is_ws :: "char \<Rightarrow> bool" where
  "is_ws c = (code c \<in> {9, 10, 11, 12, 13, 32, 160})"

definition trim :: "string \<Rightarrow> string" where
  "trim s = rev (dropWhile is_ws (rev (dropWhile is_ws s)))"

definition is_digit :: "char \<Rightarrow> bool" where
  "is_digit c = (48 \<le> code c \<and> code c \<le> 57)"

text \<open>The value of a digit in a radix up to 16 (\<open>None\<close> when it is no digit of that radix).\<close>

definition digit_val :: "nat \<Rightarrow> char \<Rightarrow> nat option" where
  "digit_val radix c =
     (let n = code c;
          v = (if 48 \<le> n \<and> n \<le> 57 then Some (n - 48)
               else if 97 \<le> n \<and> n \<le> 102 then Some (n - 87)
               else if 65 \<le> n \<and> n \<le> 70 then Some (n - 55)
               else None)
      in case v of None \<Rightarrow> None | Some d \<Rightarrow> if d < radix then Some d else None)"

fun digits_val :: "nat \<Rightarrow> nat \<Rightarrow> string \<Rightarrow> nat option" where
  "digits_val radix acc [] = Some acc"
| "digits_val radix acc (c # cs) =
     (case digit_val radix c of
        None \<Rightarrow> None
      | Some d \<Rightarrow> digits_val radix (radix * acc + d) cs)"

text \<open>A non-empty run of digits of the radix, as a number.\<close>

definition numeral_val :: "nat \<Rightarrow> string \<Rightarrow> nat option" where
  "numeral_val radix s = (if s = [] then None else digits_val radix 0 s)"

text \<open>\<^verbatim>\<open>0x\<close>, \<^verbatim>\<open>0o\<close> and \<^verbatim>\<open>0b\<close> literals (no sign allowed).\<close>

definition radix_literal :: "string \<Rightarrow> nat option" where
  "radix_literal t =
     (case t of
        c0 # c1 # ds \<Rightarrow>
          if c0 \<noteq> CHR ''0'' then None
          else if c1 = CHR ''x'' \<or> c1 = CHR ''X'' then numeral_val 16 ds
          else if c1 = CHR ''o'' \<or> c1 = CHR ''O'' then numeral_val 8 ds
          else if c1 = CHR ''b'' \<or> c1 = CHR ''B'' then numeral_val 2 ds
          else None
      | _ \<Rightarrow> None)"

definition is_exp_mark :: "char \<Rightarrow> bool" where
  "is_exp_mark c = (c = CHR ''e'' \<or> c = CHR ''E'')"

text \<open>The exponent part: empty, or \<^verbatim>\<open>e\<close> with an optional sign and at least one digit.\<close>

definition exponent_val :: "string \<Rightarrow> int option" where
  "exponent_val e =
     (case e of
        [] \<Rightarrow> Some 0
      | _ # r \<Rightarrow>
          (case r of
             [] \<Rightarrow> None
           | s # ds \<Rightarrow>
               if s = CHR ''+'' then map_option int (numeral_val 10 ds)
               else if s = CHR ''-'' then map_option (\<lambda>n. - int n) (numeral_val 10 ds)
               else map_option int (numeral_val 10 r)))"

text \<open>
  The mantissa: digits, digits with a point and optional digits after it, or a point with
  digits after it.
\<close>

definition mantissa_val :: "string \<Rightarrow> real option" where
  "mantissa_val m =
     (let ip = takeWhile (\<lambda>c. c \<noteq> CHR ''.'') m;
          r = dropWhile (\<lambda>c. c \<noteq> CHR ''.'') m
      in if r = [] then map_option real (numeral_val 10 ip)
         else
           (let fp = tl r
            in if ip = [] \<and> fp = [] then None
               else
                 (case (digits_val 10 0 ip, digits_val 10 0 fp) of
                    (Some i, Some f) \<Rightarrow> Some (real i + real f / 10 ^ length fp)
                  | _ \<Rightarrow> None)))"

definition scale10 :: "real \<Rightarrow> int \<Rightarrow> real" where
  "scale10 x e = (if 0 \<le> e then x * 10 ^ nat e else x / 10 ^ nat (- e))"

definition dec_literal :: "string \<Rightarrow> real option" where
  "dec_literal u =
     (let m = takeWhile (\<lambda>c. \<not> is_exp_mark c) u;
          e = dropWhile (\<lambda>c. \<not> is_exp_mark c) u
      in case (mantissa_val m, exponent_val e) of
           (Some x, Some k) \<Rightarrow> Some (scale10 x k)
         | _ \<Rightarrow> None)"

text \<open>
  The value a string denotes as a numeral, before rounding: \<open>NaN\<close> when it is no
  numeral, zero when it is empty or blank.
\<close>

definition str_value :: "string \<Rightarrow> jsnum" where
  "str_value s =
     (let t = trim s
      in if t = [] then Fin 0
         else
           (case radix_literal t of
              Some n \<Rightarrow> Fin (real n)
            | None \<Rightarrow>
                (let neg = (hd t = CHR ''-'');
                     u = (if hd t = CHR ''+'' \<or> hd t = CHR ''-'' then tl t else t)
                 in if u = ''Infinity'' then (if neg then NegInf else PosInf)
                    else
                      (case dec_literal u of
                         Some x \<Rightarrow> Fin (if neg then - x else x)
                       | None \<Rightarrow> NaN))))"

text \<open>\<^verbatim>\<open>Number(s)\<close> for a string \<open>s\<close>: the value of the numeral, rounded to a double.\<close>

definition str_to_num :: "numerics \<Rightarrow> string \<Rightarrow> jsnum" where
  "str_to_num T s = (case str_value s of Fin x \<Rightarrow> rounded T x | n \<Rightarrow> n)"

text \<open>The decimal digits of a natural number.\<close>

definition digit_char :: "nat \<Rightarrow> char" where
  "digit_char d = ''0123456789'' ! d"

fun dec_digits :: "nat \<Rightarrow> string" where
  "dec_digits n =
     (if n < 10 then [digit_char n]
      else dec_digits (n div 10) @ [digit_char (n mod 10)])"

text \<open>
  \<^verbatim>\<open>String(n)\<close> for a number. An integer of magnitude below \<open>2^53\<close> prints as its
  decimal digits: every such integer is a double, so no shorter decimal reads back as it.
  The text of any other finite double depends on the binary representation.
\<close>

definition num_to_string :: "numerics \<Rightarrow> jsnum \<Rightarrow> string" where
  "num_to_string T n =
     (case n of
        NaN \<Rightarrow> ''NaN''
      | PosInf \<Rightarrow> ''Infinity''
      | NegInf \<Rightarrow> ''-Infinity''
      | Fin x \<Rightarrow>
          if x = of_int \<lfloor>x\<rfloor> \<and> \<bar>x\<bar> < 2 ^ 53
          then (if x < 0 then ''-'' else []) @ dec_digits (nat \<bar>\<lfloor>x\<rfloor>\<bar>)
          else num_text T x)"

text \<open>\<^verbatim>\<open>toLowerCase\<close> on the code units below 256.\<close>

definition lower_char :: "char \<Rightarrow> char" where
  "lower_char c =
     (let n = code c
      in if (65 \<le> n \<and> n \<le> 90) \<or> (192 \<le> n \<and> n \<le> 222 \<and> n \<noteq> 215)
         then char_of (n + 32) else c)"

definition toLowerCase :: "string \<Rightarrow> string" where
  "toLowerCase s = map lower_char s"

text \<open>\<^verbatim>\<open>s.includes(t)\<close>: \<open>t\<close> occurs in \<open>s\<close> as a contiguous run.\<close>

fun str_prefix :: "string \<Rightarrow> string \<Rightarrow> bool" where
  "str_prefix [] s = True"
| "str_prefix (c # cs) [] = False"
| "str_prefix (c # cs) (d # ds) = (c = d \<and> str_prefix cs ds)"

fun str_includes :: "string \<Rightarrow> string \<Rightarrow> bool" where
  "str_includes [] t = (t = [])"
| "str_includes (c # cs) t = (str_prefix t (c # cs) \<or> str_includes cs t)"

text \<open>The order of \<^verbatim>\<open><\<close> on two strings: lexicographic on code units.\<close>

fun str_lt :: "string \<Rightarrow> string \<Rightarrow> bool" where
  "str_lt [] [] = False"
| "str_lt [] (d # ds) = True"
| "str_lt (c # cs) [] = False"
| "str_lt (c # cs) (d # ds) = (code c < code d \<or> (c = d \<and> str_lt cs ds))"

text \<open>\<^verbatim>\<open>xs.join(sep)\<close> on texts and \<^verbatim>\<open>s.split(sep)\<close> on a one-character separator.\<close>

fun join_with :: "string \<Rightarrow> string list \<Rightarrow> string" where
  "join_with sep [] = []"
| "join_with sep [s] = s"
| "join_with sep (s # t # ts) = s @ sep @ join_with sep (t # ts)"

fun split_on :: "char \<Rightarrow> string \<Rightarrow> string list" where
  "split_on sep [] = [[]]"
| "split_on sep (c # cs) =
     (if c = sep then [] # split_on sep cs
      else (case split_on sep cs of
              [] \<Rightarrow> [[c]]
            | p # ps \<Rightarrow> (c # p) # ps))"

subsection \<open>Coercions\<close>

text \<open>
  The names of the members of \<^verbatim>\<open>Object.prototype\<close>. A plain object inherits them:
  reading one that is no own property yields a function (or, for \<^verbatim>\<open>__proto__\<close>, the
  prototype object itself), never \<^verbatim>\<open>undefined\<close>.
\<close>

definition proto_keys :: "string list" where
  "proto_keys =
     [''constructor'', ''__defineGetter__'', ''__defineSetter__'', ''hasOwnProperty'',
      ''__lookupGetter__'', ''__lookupSetter__'', ''isPrototypeOf'',
      ''propertyIsEnumerable'', ''toString'', ''valueOf'', ''__proto__'',
      ''toLocaleString'']"

text \<open>\<^verbatim>\<open>String(Object.prototype[k])\<close>, as Node prints it.\<close>

definition proto_text :: "string \<Rightarrow> string" where
  "proto_text k =
     (if k = ''__proto__'' then ''[object Object]''
      else ''function '' @ (if k = ''constructor'' then ''Object'' else k)
             @ ''() { [native code] }'')"

definition is_nullish :: "jsval \<Rightarrow> bool" where
  "is_nullish v = (v = JUndef \<or> v = JNull)"

text \<open>
  \<^verbatim>\<open>String(v)\<close>. An array prints as its elements joined by commas, with
  \<^verbatim>\<open>undefined\<close> and \<^verbatim>\<open>null\<close> elements printed as the empty text.
\<close>

fun to_string :: "numerics \<Rightarrow> jsval \<Rightarrow> string" where
  "to_string T JUndef = ''undefined''"
| "to_string T JNull = ''null''"
| "to_string T (JBool b) = (if b then ''true'' else ''false'')"
| "to_string T (JNum n) = num_to_string T n"
| "to_string T (JStr s) = s"
| "to_string T (JArr xs) =
     join_with '','' (map (\<lambda>x. if x = JUndef \<or> x = JNull then [] else to_string T x) xs)"
| "to_string T (JProto k) = proto_text k"

text \<open>ToPrimitive: arrays and the prototype members become their text.\<close>

definition to_primitive :: "numerics \<Rightarrow> jsval \<Rightarrow> jsval" where
  "to_primitive T v =
     (case v of
        JArr xs \<Rightarrow> JStr (to_string T v)
      | JProto k \<Rightarrow> JStr (to_string T v)
      | _ \<Rightarrow> v)"

text \<open>\<^verbatim>\<open>Number(v)\<close>.\<close>

definition to_number :: "numerics \<Rightarrow> jsval \<Rightarrow> jsnum" where
  "to_number T v =
     (case to_primitive T v of
        JUndef \<Rightarrow> NaN
      | JNull \<Rightarrow> Fin 0
      | JBool b \<Rightarrow> Fin (if b then 1 else 0)
      | JNum n \<Rightarrow> n
      | JStr s \<Rightarrow> str_to_num T s
      | _ \<Rightarrow> NaN)"

definition is_object :: "jsval \<Rightarrow> bool" where
  "is_object v = (case v of JArr xs \<Rightarrow> True | JProto k \<Rightarrow> True | _ \<Rightarrow> False)"

definition is_string :: "jsval \<Rightarrow> bool" where
  "is_string v = (case v of JStr s \<Rightarrow> True | _ \<Rightarrow> False)"

text \<open>
  Object identity. Two prototype members are the same object when they have the same
  name. An array of the configuration and an array held by a row are distinct objects,
  and so are two arrays of the configuration.
\<close>

definition same_object :: "jsval \<Rightarrow> jsval \<Rightarrow> bool" where
  "same_object x y = (case (x, y) of (JProto k, JProto l) \<Rightarrow> k = l | _ \<Rightarrow> False)"

text \<open>
  Loose equality \<^verbatim>\<open>x == y\<close>. Two objects are equal when they are the same object;
  \<^verbatim>\<open>null\<close> and \<^verbatim>\<open>undefined\<close> equal each other and nothing else; otherwise objects
  become primitives, two strings compare as texts, and every other pair compares as
  numbers.
\<close>

definition loose_eq :: "numerics \<Rightarrow> jsval \<Rightarrow> jsval \<Rightarrow> bool" where
  "loose_eq T x y =
     (if is_object x \<and> is_object y then same_object x y
      else if is_nullish x \<or> is_nullish y then is_nullish x \<and> is_nullish y
      else
        (let px = to_primitive T x; py = to_primitive T y
         in if is_string px \<and> is_string py then px = py
            else num_eq (to_number T px) (to_number T py)))"

text \<open>
  SameValueZero, the comparison of \<^verbatim>\<open>Array.prototype.includes\<close>: no coercion, and
  \<open>NaN\<close> equals itself.
\<close>

definition same_value_zero :: "jsval \<Rightarrow> jsval \<Rightarrow> bool" where
  "same_value_zero x y = (if is_object x \<or> is_object y then same_object x y else x = y)"

definition array_includes :: "jsval list \<Rightarrow> jsval \<Rightarrow> bool" where
  "array_includes xs v = list_ex (\<lambda>x. same_value_zero x v) xs"

text \<open>
  The relational operators \<^verbatim>\<open>x < y\<close> and \<^verbatim>\<open>x > y\<close>: two strings compare as texts,
  every other pair as numbers.
\<close>

definition js_lt :: "numerics \<Rightarrow> jsval \<Rightarrow> jsval \<Rightarrow> bool" where
  "js_lt T x y =
     (case (to_primitive T x, to_primitive T y) of
        (JStr s, JStr t) \<Rightarrow> str_lt s t
      | (px, py) \<Rightarrow> num_lt (to_number T px) (to_number T py))"

definition js_gt :: "numerics \<Rightarrow> jsval \<Rightarrow> jsval \<Rightarrow> bool" where
  "js_gt T x y = js_lt T y x"

text \<open>The binary \<^verbatim>\<open>+\<close>: concatenation when a side is a string, addition otherwise.\<close>

definition js_plus :: "numerics \<Rightarrow> jsval \<Rightarrow> jsval \<Rightarrow> jsval" where
  "js_plus T x y =
     (let px = to_primitive T x; py = to_primitive T y
      in if is_string px \<or> is_string py then JStr (to_string T px @ to_string T py)
         else JNum (js_add T (to_number T px) (to_number T py)))"

subsection \<open>Objects\<close>

text \<open>
  A row is a plain object: a finite map from own property names to values. The order of
  its keys is not modelled; processData only reads rows by column name.
\<close>

type_synonym row = "string \<Rightarrow> jsval option"

text \<open>\<^verbatim>\<open>obj[k]\<close>: the own property, else the inherited member, else \<^verbatim>\<open>undefined\<close>.\<close>

definition js_get :: "row \<Rightarrow> string \<Rightarrow> jsval" where
  "js_get obj k =
     (case obj k of
        Some v \<Rightarrow> v
      | None \<Rightarrow> if k \<in> set proto_keys then JProto k else JUndef)"

text \<open>
  \<^verbatim>\<open>obj[k] = v\<close> on an object literal, for the primitive values processData stores
  (strings, numbers, \<^verbatim>\<open>undefined\<close>): the key \<^verbatim>\<open>__proto__\<close> reaches the inherited
  setter, which ignores a primitive, so no own property appears.
\<close>

definition js_set :: "row \<Rightarrow> string \<Rightarrow> jsval \<Rightarrow> row" where
  "js_set obj k v = (if k = ''__proto__'' then obj else obj(k \<mapsto> v))"

text \<open>
  \<^verbatim>\<open>v[i]\<close> for an index \<open>i\<close>: a \<^verbatim>\<open>TypeError\<close> on \<^verbatim>\<open>undefined\<close> and
  \<^verbatim>\<open>null\<close>, the element of an array, the character of a string, and
  \<^verbatim>\<open>undefined\<close> everywhere else and out of range.
\<close>

definition js_index :: "jsval \<Rightarrow> int \<Rightarrow> error + jsval" where
  "js_index v i =
     (case v of
        JUndef \<Rightarrow> Inl TypeError
      | JNull \<Rightarrow> Inl TypeError
      | JArr xs \<Rightarrow> Inr (if 0 \<le> i \<and> i < int (length xs) then xs ! nat i else JUndef)
      | JStr s \<Rightarrow> Inr (if 0 \<le> i \<and> i < int (length s) then JStr [s ! nat i] else JUndef)
      | _ \<Rightarrow> Inr JUndef)"

text \<open>\<^verbatim>\<open>xs[i]\<close> on an array of numbers.\<close>

definition num_at :: "jsnum list \<Rightarrow> int \<Rightarrow> jsval" where
  "num_at xs i = (if 0 \<le> i \<and> i < int (length xs) then JNum (xs ! nat i) else JUndef)"

text \<open>
  \<^verbatim>\<open>Array.prototype.sort(cmp)\<close>. The language fixes the result only for a consistent
  comparator: then the array is sorted and elements that compare equal keep their order.
  The model is the insertion sort that meets this contract; for an inconsistent
  comparator its result is one of the orders an engine may produce. A comparator result
  above zero moves the first argument behind the second; zero and \<open>NaN\<close> leave the two
  in place.
\<close>

fun sort_insert :: "('a \<Rightarrow> 'a \<Rightarrow> jsnum) \<Rightarrow> 'a \<Rightarrow> 'a list \<Rightarrow> 'a list" where
  "sort_insert cmp x [] = [x]"
| "sort_insert cmp x (y # ys) =
     (if num_lt (Fin 0) (cmp x y) then y # sort_insert cmp x ys else x # y # ys)"

fun js_sort :: "('a \<Rightarrow> 'a \<Rightarrow> jsnum) \<Rightarrow> 'a list \<Rightarrow> 'a list" where
  "js_sort cmp [] = []"
| "js_sort cmp (x # xs) = sort_insert cmp x (js_sort cmp xs)"

text \<open>
  \<^verbatim>\<open>Math.min(...xs)\<close> and \<^verbatim>\<open>Math.max(...xs)\<close>. The engine's limit on the number of
  arguments of one call is not modelled.
\<close>

definition min2 :: "jsnum \<Rightarrow> jsnum \<Rightarrow> jsnum" where
  "min2 a b = (if a = NaN \<or> b = NaN then NaN else if num_lt b a then b else a)"

definition max2 :: "jsnum \<Rightarrow> jsnum \<Rightarrow> jsnum" where
  "max2 a b = (if a = NaN \<or> b = NaN then NaN else if num_lt a b then b else a)"

definition math_min :: "jsnum list \<Rightarrow> jsnum" where
  "math_min xs = foldl min2 PosInf xs"

definition math_max :: "jsnum list \<Rightarrow> jsnum" where
  "math_max xs = foldl max2 NegInf xs"

section \<open>The configuration\<close>

text \<open>
  The configuration arrives as the JSON body of a request. Each part is optional
  (\<^verbatim>\<open>config.dataSelection?.filters?.length > 0\<close>): \<open>None\<close> is an absent key. An absent
  \<^verbatim>\<open>value\<close> of a filter is \<open>JUndef\<close>. Operators, functions and directions are the
  texts the code compares them with. The configuration itself is an object: the route
  handler reads \<^verbatim>\<open>config.dataSelection\<close> (line 232) before it calls processData.
\<close>

record row_filter =
  f_column :: string
  f_operator :: string
  f_value :: jsval

record aggregation =
  a_column :: string
  a_function :: string

record order_spec =
  o_column :: string
  o_direction :: string

record data_selection =
  filters :: "row_filter list option"
  groupBy :: "string list option"
  aggregations :: "aggregation list option"
  orderBy :: "order_spec list option"

record config =
  dataSelection :: "data_selection option"

text \<open>\<^verbatim>\<open>config.dataSelection?.part\<close>, with an absent part read as the empty list
  (\<^verbatim>\<open>undefined > 0\<close> is false, as is \<^verbatim>\<open>0 > 0\<close>).\<close>

definition selection :: "config \<Rightarrow> (data_selection \<Rightarrow> 'a list option) \<Rightarrow> 'a list" where
  "selection cfg part =
     (case dataSelection cfg of
        None \<Rightarrow> []
      | Some ds \<Rightarrow> (case part ds of None \<Rightarrow> [] | Some xs \<Rightarrow> xs))"

section \<open>The filter stage (lines 22 to 52)\<close>

text \<open>The callback of \<^verbatim>\<open>processedData.filter\<close>: the \<^verbatim>\<open>switch\<close> on the operator.\<close>

definition filter_pred :: "numerics \<Rightarrow> row_filter \<Rightarrow> row \<Rightarrow> error + bool" where
  "filter_pred T f r =
     (let cellValue = js_get r (f_column f); v = f_value f; operator = f_operator f
      in if operator = ''equals'' then Inr (loose_eq T cellValue v)
         else if operator = ''not_equals'' then Inr (\<not> loose_eq T cellValue v)
         else if operator = ''contains'' then
           Inr (str_includes (toLowerCase (to_string T cellValue)) (toLowerCase (to_string T v)))
         else if operator = ''not_contains'' then
           Inr (\<not> str_includes (toLowerCase (to_string T cellValue)) (toLowerCase (to_string T v)))
         else if operator = ''greater_than'' then
           Inr (num_gt (to_number T cellValue) (to_number T v))
         else if operator = ''less_than'' then
           Inr (num_lt (to_number T cellValue) (to_number T v))
         else if operator = ''between'' then
           (case js_index v 0 of
              Inl e \<Rightarrow> Inl e
            | Inr lo \<Rightarrow>
                if num_ge (to_number T cellValue) (to_number T lo)
                then (case js_index v 1 of
                        Inl e \<Rightarrow> Inl e
                      | Inr hi \<Rightarrow> Inr (num_le (to_number T cellValue) (to_number T hi)))
                else Inr False)
         else if operator = ''in'' then
           Inr (case v of JArr xs \<Rightarrow> array_includes xs cellValue | _ \<Rightarrow> False)
         else if operator = ''not_in'' then
           Inr (case v of JArr xs \<Rightarrow> \<not> array_includes xs cellValue | _ \<Rightarrow> False)
         else Inr True)"

text \<open>\<^verbatim>\<open>processedData.filter(row => ...)\<close>: rows in order; an exception of the callback ends it.\<close>

fun filter_rows :: "numerics \<Rightarrow> row_filter \<Rightarrow> row list \<Rightarrow> error + row list" where
  "filter_rows T f [] = Inr []"
| "filter_rows T f (r # rs) =
     (case filter_pred T f r of
        Inl e \<Rightarrow> Inl e
      | Inr keep \<Rightarrow>
          (case filter_rows T f rs of
             Inl e \<Rightarrow> Inl e
           | Inr out \<Rightarrow> Inr (if keep then r # out else out)))"

text \<open>\<^verbatim>\<open>filters.forEach\<close>: each filter narrows the rows the one before it kept.\<close>

fun apply_filters :: "numerics \<Rightarrow> row_filter list \<Rightarrow> row list \<Rightarrow> error + row list" where
  "apply_filters T [] rows = Inr rows"
| "apply_filters T (f # fs) rows =
     (case filter_rows T f rows of
        Inl e \<Rightarrow> Inl e
      | Inr out \<Rightarrow> apply_filters T fs out)"

definition filter_stage :: "numerics \<Rightarrow> config \<Rightarrow> row list \<Rightarrow> error + row list" where
  "filter_stage T cfg rows =
     (if selection cfg filters \<noteq> [] then apply_filters T (selection cfg filters) rows
      else Inr rows)"

section \<open>The group and aggregate stage (lines 55 to 115)\<close>

text \<open>
  \<^verbatim>\<open>groupBy.map(col => row[col]).join('|')\<close>: \<^verbatim>\<open>join\<close> prints \<^verbatim>\<open>undefined\<close> and
  \<^verbatim>\<open>null\<close> as the empty text.
\<close>

definition group_key :: "numerics \<Rightarrow> string list \<Rightarrow> row \<Rightarrow> string" where
  "group_key T gb r =
     join_with ''|''
       (map (\<lambda>col. let v = js_get r col in if is_nullish v then [] else to_string T v) gb)"

text \<open>
  The object \<^verbatim>\<open>grouped\<close>: its own properties in the order they were created. Pushing a
  row under a key that is no own property but names a member of \<^verbatim>\<open>Object.prototype\<close>
  finds the inherited member (truthy, so no array is created) and calls its missing
  \<^verbatim>\<open>push\<close>: a \<^verbatim>\<open>TypeError\<close>.
\<close>

type_synonym groups = "(string \<times> row list) list"

definition push_row :: "string \<Rightarrow> row \<Rightarrow> groups \<Rightarrow> groups" where
  "push_row k r grouped = map (\<lambda>(k', g). if k' = k then (k', g @ [r]) else (k', g)) grouped"

fun group_rows :: "numerics \<Rightarrow> string list \<Rightarrow> row list \<Rightarrow> groups \<Rightarrow> error + groups" where
  "group_rows T gb [] grouped = Inr grouped"
| "group_rows T gb (r # rs) grouped =
     (let groupKey = group_key T gb r
      in case map_of grouped groupKey of
           Some g \<Rightarrow> group_rows T gb rs (push_row groupKey r grouped)
         | None \<Rightarrow>
             if groupKey \<in> set proto_keys then Inl TypeError
             else group_rows T gb rs (grouped @ [(groupKey, [r])]))"

text \<open>
  \<^verbatim>\<open>Object.entries\<close> lists the keys that are array indices (canonical decimal numerals
  below \<open>2^32 - 1\<close>) first, in ascending numeric order, and then the other keys in the
  order they were created.
\<close>

definition index_of_key :: "string \<Rightarrow> nat" where
  "index_of_key k = (case numeral_val 10 k of Some n \<Rightarrow> n | None \<Rightarrow> 0)"

definition is_array_index :: "string \<Rightarrow> bool" where
  "is_array_index k =
     (k \<noteq> [] \<and> list_all is_digit k \<and> (k = ''0'' \<or> hd k \<noteq> CHR ''0'')
      \<and> index_of_key k < 2 ^ 32 - 1)"

definition object_entries :: "(string \<times> 'a) list \<Rightarrow> (string \<times> 'a) list" where
  "object_entries obj =
     sort_key (\<lambda>(k, v). index_of_key k) (filter (\<lambda>(k, v). is_array_index k) obj)
     @ filter (\<lambda>(k, v). \<not> is_array_index k) obj"

text \<open>The numeric-coercible values of a column within a group (line 79).\<close>

definition agg_values :: "numerics \<Rightarrow> string \<Rightarrow> row list \<Rightarrow> jsnum list" where
  "agg_values T col rows =
     filter (\<lambda>val. \<not> isNaN val) (map (\<lambda>r. to_number T (js_get r col)) rows)"

definition sum_values :: "numerics \<Rightarrow> jsnum list \<Rightarrow> jsnum" where
  "sum_values T vs = foldl (\<lambda>a b. js_add T a b) (Fin 0) vs"

text \<open>\<^verbatim>\<open>values.length\<close>: an array length is an integer below \<open>2^32\<close>, hence a double.\<close>

definition count_of :: "jsnum list \<Rightarrow> jsnum" where
  "count_of vs = Fin (real (length vs))"

text \<open>The comparator \<^verbatim>\<open>(a, b) => a - b\<close> of the median.\<close>

definition median_of :: "numerics \<Rightarrow> jsnum list \<Rightarrow> jsval" where
  "median_of T vs =
     (let sorted = js_sort (\<lambda>a b. js_sub T a b) vs;
          mid = int (length sorted div 2)
      in if length sorted mod 2 = 0
         then JNum (js_div T (to_number T (js_plus T (num_at sorted (mid - 1)) (num_at sorted mid)))
                      (Fin 2))
         else num_at sorted mid)"

definition std_dev_of :: "numerics \<Rightarrow> jsnum list \<Rightarrow> jsnum" where
  "std_dev_of T vs =
     (let mean = js_div T (sum_values T vs) (count_of vs);
          variance =
            js_div T (foldl (\<lambda>a b. js_add T a (js_pow2 T (js_sub T b mean))) (Fin 0) vs)
              (count_of vs)
      in js_sqrt T variance)"

text \<open>
  The value one aggregation function computes from the coercible values: the right-hand
  sides of the \<^verbatim>\<open>switch\<close> of lines 81 to 109; \<open>None\<close> when no \<^verbatim>\<open>case\<close> matches.
\<close>

definition agg_result :: "numerics \<Rightarrow> string \<Rightarrow> jsnum list \<Rightarrow> jsval option" where
  "agg_result T aggFunc vs =
     (if aggFunc = ''sum'' then Some (JNum (sum_values T vs))
      else if aggFunc = ''avg'' then
        Some (JNum (if length vs > 0 then js_div T (sum_values T vs) (count_of vs) else Fin 0))
      else if aggFunc = ''count'' then Some (JNum (count_of vs))
      else if aggFunc = ''min'' then Some (JNum (if length vs > 0 then math_min vs else Fin 0))
      else if aggFunc = ''max'' then Some (JNum (if length vs > 0 then math_max vs else Fin 0))
      else if aggFunc = ''median'' then Some (median_of T vs)
      else if aggFunc = ''std_dev'' then Some (JNum (std_dev_of T vs))
      else None)"

text \<open>The body of \<^verbatim>\<open>aggregations.forEach\<close>: the field \<^verbatim>\<open>`${column}_${aggFunc}`\<close> is set.\<close>

definition apply_agg :: "numerics \<Rightarrow> row list \<Rightarrow> row \<Rightarrow> aggregation \<Rightarrow> row" where
  "apply_agg T rows result agg =
     (case agg_result T (a_function agg) (agg_values T (a_column agg) rows) of
        None \<Rightarrow> result
      | Some v \<Rightarrow> js_set result (a_column agg @ ''_'' @ a_function agg) v)"

text \<open>\<^verbatim>\<open>groupKey.split('|')[index]\<close>.\<close>

definition key_part :: "string \<Rightarrow> nat \<Rightarrow> jsval" where
  "key_part groupKey index =
     (let parts = split_on (CHR ''|'') groupKey
      in if index < length parts then JStr (parts ! index) else JUndef)"

text \<open>\<^verbatim>\<open>groupBy.forEach((col, index) => ...)\<close>, from the index \<open>i\<close> on.\<close>

fun set_group_columns :: "string \<Rightarrow> string list \<Rightarrow> nat \<Rightarrow> row \<Rightarrow> row" where
  "set_group_columns groupKey [] i result = result"
| "set_group_columns groupKey (col # cols) i result =
     set_group_columns groupKey cols (Suc i) (js_set result col (key_part groupKey i))"

text \<open>The callback of \<^verbatim>\<open>Object.entries(grouped).map\<close> (lines 67 to 114).\<close>

definition build_record ::
  "numerics \<Rightarrow> string list \<Rightarrow> aggregation list \<Rightarrow> string \<times> row list \<Rightarrow> row" where
  "build_record T gb aggs entry =
     (let groupKey = fst entry; rows = snd entry;
          result = set_group_columns groupKey gb 0 Map.empty
      in if aggs \<noteq> [] then foldl (apply_agg T rows) result aggs else result)"

definition group_stage :: "numerics \<Rightarrow> config \<Rightarrow> row list \<Rightarrow> error + row list" where
  "group_stage T cfg rows =
     (if selection cfg groupBy \<noteq> [] then
        (case group_rows T (selection cfg groupBy) rows [] of
           Inl e \<Rightarrow> Inl e
         | Inr grouped \<Rightarrow>
             Inr (map (build_record T (selection cfg groupBy) (selection cfg aggregations))
                    (object_entries grouped)))
      else Inr rows)"

section \<open>The order stage (lines 118 to 130)\<close>

text \<open>The comparator: the first column on which the two records differ decides.\<close>

fun compare_rows :: "numerics \<Rightarrow> order_spec list \<Rightarrow> row \<Rightarrow> row \<Rightarrow> jsnum" where
  "compare_rows T [] a b = Fin 0"
| "compare_rows T (s # ss) a b =
     (let aVal = js_get a (o_column s); bVal = js_get b (o_column s)
      in if js_lt T aVal bVal then (if o_direction s = ''asc'' then Fin (- 1) else Fin 1)
         else if js_gt T aVal bVal then (if o_direction s = ''asc'' then Fin 1 else Fin (- 1))
         else compare_rows T ss a b)"

definition order_stage :: "numerics \<Rightarrow> config \<Rightarrow> row list \<Rightarrow> row list" where
  "order_stage T cfg rows =
     (if selection cfg orderBy \<noteq> [] then js_sort (compare_rows T (selection cfg orderBy)) rows
      else rows)"

section \<open>processData\<close>

definition processData :: "numerics \<Rightarrow> row list \<Rightarrow> config \<Rightarrow> error + row list" where
  "processData T rawData cfg =
     (case filter_stage T cfg rawData of
        Inl e \<Rightarrow> Inl e
      | Inr filtered \<Rightarrow>
          (case group_stage T cfg filtered of
             Inl e \<Rightarrow> Inl e
           | Inr grouped \<Rightarrow> Inr (order_stage T cfg grouped)))"

section \<open>Notions used to state the properties\<close>

text \<open>The nine operators the \<^verbatim>\<open>switch\<close> of the filter stage names.\<close>

definition known_operators :: "string list" where
  "known_operators =
     [''equals'', ''not_equals'', ''contains'', ''not_contains'', ''greater_than'',
      ''less_than'', ''between'', ''in'', ''not_in'']"

text \<open>
  What the specification says of \<^verbatim>\<open>equals\<close> and \<^verbatim>\<open>not_equals\<close> on a row without
  the column: the first holds exactly when the filter value is \<^verbatim>\<open>null\<close> (or absent),
  the second is its negation, and neither raises.
\<close>

definition absent_equals_claim :: "numerics \<Rightarrow> string \<Rightarrow> jsval \<Rightarrow> row \<Rightarrow> bool" where
  "absent_equals_claim T col v r =
     (filter_pred T \<lparr>f_column = col, f_operator = ''equals'', f_value = v\<rparr> r
        = Inr (is_nullish v)
      \<and> filter_pred T \<lparr>f_column = col, f_operator = ''not_equals'', f_value = v\<rparr> r
        = Inr (\<not> is_nullish v))"

text \<open>The seven functions the \<^verbatim>\<open>switch\<close> of the aggregations names.\<close>

definition agg_functions :: "string list" where
  "agg_functions = [''sum'', ''avg'', ''count'', ''min'', ''max'', ''median'', ''std_dev'']"

text \<open>The output field of an aggregation: \<^verbatim>\<open>`${column}_${function}`\<close>.\<close>

definition field_name :: "aggregation \<Rightarrow> string" where
  "field_name agg = a_column agg @ ''_'' @ a_function agg"

text \<open>The distinct elements of a list in the order of their first occurrence.\<close>

fun first_seen :: "'a list \<Rightarrow> 'a list" where
  "first_seen [] = []"
| "first_seen (x # xs) = x # filter (\<lambda>y. y \<noteq> x) (first_seen xs)"

text \<open>
  The groups of a row sequence, in first-seen order of their keys: each key with the rows
  that have it, in input order.
\<close>

definition grouping :: "numerics \<Rightarrow> string list \<Rightarrow> row list \<Rightarrow> groups" where
  "grouping T gb rows =
     map (\<lambda>k. (k, filter (\<lambda>r. group_key T gb r = k) rows))
       (first_seen (map (group_key T gb) rows))"

text \<open>
  Two rows that agree on every column but \<open>c\<close>, and whose values in column \<open>c\<close>
  have the same \<^verbatim>\<open>Number\<close>.
\<close>

definition same_but :: "numerics \<Rightarrow> string \<Rightarrow> row \<Rightarrow> row \<Rightarrow> bool" where
  "same_but T c r r' =
     ((\<forall>k. k \<noteq> c \<longrightarrow> js_get r k = js_get r' k)
      \<and> to_number T (js_get r c) = to_number T (js_get r' c))"

text \<open>
  The comparator of the order stage on two records: above zero (the first ranks after the
  second) and zero (the two tie on every spec).
\<close>

definition ranks_after :: "numerics \<Rightarrow> order_spec list \<Rightarrow> row \<Rightarrow> row \<Rightarrow> bool" where
  "ranks_after T specs a b = num_lt (Fin 0) (compare_rows T specs a b)"

definition tied :: "numerics \<Rightarrow> order_spec list \<Rightarrow> row \<Rightarrow> row \<Rightarrow> bool" where
  "tied T specs a b = (compare_rows T specs a b = Fin 0)"

text \<open>
  The comparator is consistent on the records when "does not rank after" is transitive
  among them. It is so when every orderBy column holds a finite number in every record,
  or a text in every record (lemma \<open>consistent_on_numbers_or_texts\<close>); it may fail when
  a column mixes them or has missing cells, because a comparison with \<open>NaN\<close> ties with
  everything.
\<close>

definition consistent_on :: "numerics \<Rightarrow> order_spec list \<Rightarrow> row list \<Rightarrow> bool" where
  "consistent_on T specs rows =
     (\<forall>a \<in> set rows. \<forall>b \<in> set rows. \<forall>c \<in> set rows.
        \<not> ranks_after T specs a b \<and> \<not> ranks_after T specs b c \<longrightarrow> \<not> ranks_after T specs a c)"

text \<open>
  A column is ordered among the records when "not less than" under \<^verbatim>\<open><\<close> is
  transitive on the values the records hold in it.
\<close>

definition ordered_column :: "numerics \<Rightarrow> row list \<Rightarrow> string \<Rightarrow> bool" where
  "ordered_column T rows col =
     (\<forall>a \<in> set rows. \<forall>b \<in> set rows. \<forall>c \<in> set rows.
        \<not> js_lt T (js_get a col) (js_get b col) \<and> \<not> js_lt T (js_get b col) (js_get c col)
        \<longrightarrow> \<not> js_lt T (js_get a col) (js_get c col))"

text \<open>
  The parameter at which the examples below are evaluated. The examples compute with
  integers of small magnitude only, so their results are the same for every parameter.
\<close>

definition small_numbers :: numerics where
  "small_numbers =
     \<lparr>nearest = (\<lambda>x. Fin x), square = (\<lambda>x. Fin (x * x)), root = (\<lambda>x. Fin (sqrt x)),
      num_text = (\<lambda>x. [])\<rparr>"

section \<open>Properties\<close>

lemmas stage_defs = processData_def filter_stage_def group_stage_def order_stage_def

subsection \<open>The pipeline driver\<close>

text \<open>
  C6. Identity pipeline: when the configuration has no filters, no groupBy and no orderBy
  (each absent or empty, as in \<^verbatim>\<open>transform(rows, {})\<close>), processData returns the rows
  unchanged in content and in their original order, whatever the rows are.
\<close>

theorem identity_pipeline:
  assumes "selection cfg filters = []" and "selection cfg groupBy = []"
    and "selection cfg orderBy = []"
  shows "processData T rows cfg = Inr rows"
  using assms by (simp add: stage_defs)

theorem identity_pipeline_witness:
  "processData small_numbers [[''a'' \<mapsto> JNum (Fin 2)], [''a'' \<mapsto> JStr ''x'', ''b'' \<mapsto> JNull]]
     \<lparr>dataSelection = None\<rparr>
   = Inr [[''a'' \<mapsto> JNum (Fin 2)], [''a'' \<mapsto> JStr ''x'', ''b'' \<mapsto> JNull]]"
  by (rule identity_pipeline) (simp_all add: selection_def)

text \<open>
  C7. For every configuration, processData applied to the empty row sequence returns the
  empty sequence and raises nothing. A returned value is a list by its type: the result
  is never \<^verbatim>\<open>null\<close>.
\<close>

theorem empty_input: "processData T [] cfg = Inr []"
proof -
  have "apply_filters T fs [] = Inr []" for fs
    by (induction fs) simp_all
  then have f: "filter_stage T cfg [] = Inr []"
    by (simp add: filter_stage_def)
  have g: "group_stage T cfg [] = Inr []"
    by (simp add: group_stage_def object_entries_def)
  have s: "order_stage T cfg [] = []"
    by (simp add: order_stage_def)
  show ?thesis
    by (simp add: processData_def f g s)
qed

subsection \<open>The filter stage\<close>

text \<open>
  C8. A filter whose operator is none of the nine recognised ones evaluates true on every
  row without raising, so the filter keeps every row.
\<close>

theorem unknown_operator_keeps_row:
  assumes "f_operator f \<notin> set known_operators"
  shows "filter_pred T f r = Inr True \<and> filter_rows T f rows = Inr rows"
proof -
  have p: "filter_pred T f r = Inr True" for r
    using assms by (simp add: filter_pred_def known_operators_def)
  have "filter_rows T f rows = Inr rows"
    by (induction rows) (simp_all add: p)
  with p show ?thesis by simp
qed

theorem unknown_operator_keeps_row_witness:
  "filter_pred small_numbers \<lparr>f_column = ''a'', f_operator = ''matches'', f_value = JStr ''x''\<rparr>
      [''a'' \<mapsto> JNum (Fin 1)] = Inr True
   \<and> filter_rows small_numbers \<lparr>f_column = ''a'', f_operator = ''matches'', f_value = JStr ''x''\<rparr>
      [[''a'' \<mapsto> JNum (Fin 1)], Map.empty] = Inr [[''a'' \<mapsto> JNum (Fin 1)], Map.empty]"
  by (rule unknown_operator_keeps_row) (simp add: known_operators_def)

lemma loose_eq_undef: "loose_eq T JUndef v = is_nullish v"
  by (simp add: loose_eq_def is_object_def is_nullish_def)

text \<open>
  C10, as amended. On a row without the filter's column, where the column does not name a
  member of \<^verbatim>\<open>Object.prototype\<close>, \<^verbatim>\<open>equals\<close> holds exactly when the filter value is
  \<^verbatim>\<open>null\<close> or absent, \<^verbatim>\<open>not_equals\<close> is its exact negation, and neither raises.
\<close>

theorem absent_column_equals:
  assumes "r col = None" and "col \<notin> set proto_keys"
  shows "absent_equals_claim T col v r"
  using assms by (simp add: absent_equals_claim_def filter_pred_def js_get_def loose_eq_undef)

theorem absent_column_equals_witness:
  "absent_equals_claim small_numbers ''b'' JNull [''a'' \<mapsto> JNum (Fin 1)]
   \<and> absent_equals_claim small_numbers ''b'' (JNum (Fin 0)) [''a'' \<mapsto> JNum (Fin 1)]"
proof -
  have a: "[''a'' \<mapsto> JNum (Fin 1)] ''b'' = None"
    by simp
  have b: "''b'' \<notin> set proto_keys"
    by (simp add: proto_keys_def)
  show ?thesis
    using absent_column_equals [of "[''a'' \<mapsto> JNum (Fin 1)]" "''b''", OF a b] by simp
qed

text \<open>
  C10 as stated fails for a column named like a member of \<^verbatim>\<open>Object.prototype\<close>: the
  empty row has no column \<^verbatim>\<open>constructor\<close>, the filter value is \<^verbatim>\<open>null\<close>, and yet
  \<^verbatim>\<open>row['constructor'] == null\<close> is false, because the lookup finds the inherited
  function.
\<close>

theorem absent_column_equals_counterexample:
  "Map.empty ''constructor'' = (None :: jsval option)
   \<and> \<not> absent_equals_claim small_numbers ''constructor'' JNull Map.empty"
  by (simp add: absent_equals_claim_def filter_pred_def js_get_def proto_keys_def loose_eq_def
      is_object_def is_nullish_def)

lemma includes_primitive:
  assumes "\<not> is_object c"
  shows "array_includes xs c = (c \<in> set xs)"
proof -
  have "same_value_zero x c = (x = c)" for x
    using assms by (cases x; cases c) (simp_all add: same_value_zero_def is_object_def same_object_def)
  then show ?thesis
    by (auto simp add: array_includes_def list_ex_iff)
qed

text \<open>
  C2, as amended. With operator \<^verbatim>\<open>in\<close> the row is kept exactly when the filter value is
  a list and some element is the same value as the cell under SameValueZero; with
  \<^verbatim>\<open>not_in\<close> exactly when it is a list and no element is; a value that is no list
  excludes the row under both. For a primitive cell, SameValueZero is equality of type and
  value: no coercion takes place, and the test is membership of the cell in the list.
\<close>

theorem membership_is_strict:
  "filter_pred T \<lparr>f_column = col, f_operator = ''in'', f_value = v\<rparr> r
     = Inr (\<exists>xs. v = JArr xs \<and> (\<exists>x \<in> set xs. same_value_zero x (js_get r col)))
   \<and> filter_pred T \<lparr>f_column = col, f_operator = ''not_in'', f_value = v\<rparr> r
     = Inr (\<exists>xs. v = JArr xs \<and> \<not> (\<exists>x \<in> set xs. same_value_zero x (js_get r col)))
   \<and> (\<not> is_object (js_get r col) \<longrightarrow>
        (\<exists>x \<in> set xs. same_value_zero x (js_get r col)) = (js_get r col \<in> set xs))"
proof -
  have 1: "filter_pred T \<lparr>f_column = col, f_operator = ''in'', f_value = v\<rparr> r
     = Inr (\<exists>xs. v = JArr xs \<and> (\<exists>x \<in> set xs. same_value_zero x (js_get r col)))"
    by (cases v) (simp_all add: filter_pred_def Let_def array_includes_def list_ex_iff)
  have 2: "filter_pred T \<lparr>f_column = col, f_operator = ''not_in'', f_value = v\<rparr> r
     = Inr (\<exists>xs. v = JArr xs \<and> \<not> (\<exists>x \<in> set xs. same_value_zero x (js_get r col)))"
    by (cases v) (simp_all add: filter_pred_def Let_def array_includes_def list_ex_iff)
  have 3: "\<not> is_object (js_get r col) \<longrightarrow>
        (\<exists>x \<in> set xs. same_value_zero x (js_get r col)) = (js_get r col \<in> set xs)"
    using includes_primitive [of "js_get r col" xs]
    by (simp add: array_includes_def list_ex_iff)
  from 1 2 3 show ?thesis by simp
qed

theorem membership_is_strict_witness:
  "filter_pred small_numbers \<lparr>f_column = ''a'', f_operator = ''in'',
       f_value = JArr [JNum (Fin 5), JStr ''x'']\<rparr> [''a'' \<mapsto> JNum (Fin 5)] = Inr True
   \<and> filter_pred small_numbers \<lparr>f_column = ''a'', f_operator = ''not_in'',
       f_value = JArr [JNum (Fin 5), JStr ''x'']\<rparr> [''a'' \<mapsto> JNum (Fin 5)] = Inr False
   \<and> filter_pred small_numbers \<lparr>f_column = ''a'', f_operator = ''not_in'',
       f_value = JNum (Fin 5)\<rparr> [''a'' \<mapsto> JNum (Fin 5)] = Inr False"
proof -
  have g: "js_get [''a'' \<mapsto> JNum (Fin 5)] ''a'' = JNum (Fin 5)"
    by (simp add: js_get_def)
  have o: "\<not> is_object (JNum (Fin 5))"
    by (simp add: is_object_def)
  show ?thesis
    using membership_is_strict [of small_numbers "''a''" "JArr [JNum (Fin 5), JStr ''x'']"
        "[''a'' \<mapsto> JNum (Fin 5)]" "[JNum (Fin 5), JStr ''x'']"]
      membership_is_strict [of small_numbers "''a''" "JNum (Fin 5)"
        "[''a'' \<mapsto> JNum (Fin 5)]" "[]"]
    by (simp add: g o)
qed

lemma str_value_5: "str_value ''5'' = Fin 5"
  by code_simp

text \<open>
  C2 as stated fails: the text \<^verbatim>\<open>'5'\<close> is loosely equal to the number 5, and yet the
  filter \<^verbatim>\<open>in ['5']\<close> excludes the row whose cell is the number 5.
\<close>

theorem membership_loose_counterexample:
  "loose_eq small_numbers (JStr ''5'') (JNum (Fin 5))
   \<and> filter_pred small_numbers \<lparr>f_column = ''a'', f_operator = ''in'', f_value = JArr [JStr ''5'']\<rparr>
       [''a'' \<mapsto> JNum (Fin 5)] = Inr False"
  by (simp add: loose_eq_def is_object_def is_nullish_def to_primitive_def to_number_def
      is_string_def num_eq_def str_to_num_def str_value_5 rounded_def filter_pred_def js_get_def array_includes_def
      same_value_zero_def)

subsection \<open>Cells that are not numeric\<close>

lemma proto_text_not_numeric:
  assumes "k \<in> set proto_keys"
  shows "str_to_num T (proto_text k) = NaN"
proof -
  have "list_all (\<lambda>k. str_value (proto_text k) = NaN) proto_keys"
    by code_simp
  with assms show ?thesis
    by (simp add: list_all_iff str_to_num_def)
qed

lemma absent_not_coercible:
  assumes "r c = None"
  shows "to_number T (js_get r c) = NaN"
  using assms
  by (simp add: js_get_def to_number_def to_primitive_def proto_text_not_numeric)

subsection \<open>The fields of an output record\<close>

lemma agg_result_recognised:
  "(agg_result T f vs \<noteq> None) = (f \<in> set agg_functions)"
  by (simp add: agg_result_def agg_functions_def)

lemma field_name_inj:
  assumes "f \<in> set agg_functions" and "g \<in> set agg_functions"
    and "c @ ''_'' @ f = d @ ''_'' @ g"
  shows "c = d \<and> f = g"
proof -
  from assms(3) have "rev (c @ ''_'' @ f) = rev (d @ ''_'' @ g)"
    by simp
  then have r: "rev f @ ''_'' @ rev c = rev g @ ''_'' @ rev d"
    by simp
  from assms(1,2) r show ?thesis
    by (auto simp add: agg_functions_def)
qed

lemma field_name_not_proto:
  assumes "f \<in> set agg_functions"
  shows "c @ ''_'' @ f \<noteq> ''__proto__''"
proof
  assume "c @ ''_'' @ f = ''__proto__''"
  then have "rev (c @ ''_'' @ f) = rev ''__proto__''"
    by simp
  then have "rev f @ ''_'' @ rev c = ''__otorp__''"
    by simp
  with assms show False
    by (auto simp add: agg_functions_def)
qed

lemma dom_js_set: "dom (js_set obj k v) = dom obj \<union> ({k} - {''__proto__''})"
  by (auto simp add: js_set_def)

lemma dom_set_group_columns:
  "dom (set_group_columns k gb i res) = dom res \<union> (set gb - {''__proto__''})"
  by (induction gb arbitrary: i res) (auto simp add: dom_js_set)

lemma apply_agg_unrecognised:
  "a_function a \<notin> set agg_functions \<Longrightarrow> apply_agg T rows res a = res"
  using agg_result_recognised [of T "a_function a" "agg_values T (a_column a) rows"]
  by (simp add: apply_agg_def)

lemma apply_agg_recognised:
  assumes "a_function a \<in> set agg_functions"
  shows "apply_agg T rows res a =
    res(field_name a \<mapsto> the (agg_result T (a_function a) (agg_values T (a_column a) rows)))"
proof -
  obtain v where v: "agg_result T (a_function a) (agg_values T (a_column a) rows) = Some v"
    using agg_result_recognised [of T "a_function a" "agg_values T (a_column a) rows"] assms
    by auto
  have "field_name a \<noteq> ''__proto__''"
    using field_name_not_proto [OF assms] by (simp add: field_name_def)
  then show ?thesis
    by (simp add: apply_agg_def v js_set_def field_name_def)
qed

lemma dom_foldl_apply_agg:
  "dom (foldl (apply_agg T rows) res aggs) =
     dom res \<union> {field_name a | a. a \<in> set aggs \<and> a_function a \<in> set agg_functions}"
proof (induction aggs rule: rev_induct)
  case Nil
  then show ?case by simp
next
  case (snoc a aggs)
  show ?case
  proof (cases "a_function a \<in> set agg_functions")
    case True
    have "dom (foldl (apply_agg T rows) res (aggs @ [a])) =
        insert (field_name a) (dom (foldl (apply_agg T rows) res aggs))"
      by (simp add: apply_agg_recognised [OF True])
    also have "\<dots> = insert (field_name a) (dom res \<union>
        {field_name a | a. a \<in> set aggs \<and> a_function a \<in> set agg_functions})"
      by (simp only: snoc)
    also have "\<dots> = dom res \<union>
        {field_name b | b. b \<in> set (aggs @ [a]) \<and> a_function b \<in> set agg_functions}"
      using True by auto
    finally show ?thesis .
  next
    case False
    have "dom (foldl (apply_agg T rows) res (aggs @ [a])) =
        dom (foldl (apply_agg T rows) res aggs)"
      by (simp add: apply_agg_unrecognised [OF False])
    also have "\<dots> = dom res \<union>
        {field_name a | a. a \<in> set aggs \<and> a_function a \<in> set agg_functions}"
      by (simp only: snoc)
    also have "\<dots> = dom res \<union>
        {field_name b | b. b \<in> set (aggs @ [a]) \<and> a_function b \<in> set agg_functions}"
      using False by auto
    finally show ?thesis .
  qed
qed

lemma foldl_apply_agg_field:
  assumes "a \<in> set aggs" and "a_function a \<in> set agg_functions"
  shows "foldl (apply_agg T rows) res aggs (field_name a) =
     agg_result T (a_function a) (agg_values T (a_column a) rows)"
  using assms(1)
proof (induction aggs rule: rev_induct)
  case Nil
  then show ?case by simp
next
  case (snoc b aggs)
  obtain v where v: "agg_result T (a_function a) (agg_values T (a_column a) rows) = Some v"
    using agg_result_recognised [of T "a_function a" "agg_values T (a_column a) rows"] assms(2)
    by auto
  show ?case
  proof (cases "a_function b \<in> set agg_functions")
    case False
    then have "b \<noteq> a" using assms(2) by auto
    with snoc have "a \<in> set aggs" by simp
    with snoc False show ?thesis
      by (simp add: apply_agg_unrecognised)
  next
    case True
    show ?thesis
    proof (cases "field_name b = field_name a")
      case same: True
      then have "a_column b = a_column a \<and> a_function b = a_function a"
        using field_name_inj [OF True assms(2)] by (simp add: field_name_def)
      then show ?thesis
        by (simp add: apply_agg_recognised [OF True] same v)
    next
      case diff: False
      then have "b \<noteq> a" by auto
      with snoc have "a \<in> set aggs" by simp
      with snoc diff show ?thesis
        by (simp add: apply_agg_recognised [OF True])
    qed
  qed
qed


lemma dom_build_record:
  "dom (build_record T gb aggs (k, rows)) =
     (set gb - {''__proto__''})
     \<union> {field_name a | a. a \<in> set aggs \<and> a_function a \<in> set agg_functions}"
  by (cases "aggs = []")
    (simp_all add: build_record_def Let_def dom_foldl_apply_agg dom_set_group_columns)

lemma set_sort_insert: "set (sort_insert cmp x xs) = insert x (set xs)"
  by (induction xs) auto

lemma set_js_sort: "set (js_sort cmp xs) = set xs"
  by (induction xs) (simp_all add: set_sort_insert)

lemma set_order_stage: "set (order_stage T cfg xs) = set xs"
  by (simp add: order_stage_def set_js_sort)

text \<open>
  C9, as amended. Whenever groupBy is non-empty, the fields of every output record are
  exactly: one field per groupBy column other than \<^verbatim>\<open>__proto__\<close>, and the field
  \<^verbatim>\<open><column>_<function>\<close> of each aggregation whose function is one of the seven
  recognised names. An aggregation with another function adds no field and raises nothing,
  and no other column of the input rows appears in the record.
\<close>

theorem output_record_fields:
  assumes "selection cfg groupBy \<noteq> []" and "processData T rows cfg = Inr out"
    and "r \<in> set out"
  shows "dom r =
     (set (selection cfg groupBy) - {''__proto__''})
     \<union> {field_name a | a.
          a \<in> set (selection cfg aggregations) \<and> a_function a \<in> set agg_functions}"
proof -
  from assms(2) obtain filtered grouped where
    g: "group_stage T cfg filtered = Inr grouped" and o: "out = order_stage T cfg grouped"
    by (auto simp add: processData_def split: sum.splits)
  from g assms(1) obtain groups where
    "grouped = map (build_record T (selection cfg groupBy) (selection cfg aggregations))
       (object_entries groups)"
    by (auto simp add: group_stage_def split: sum.splits)
  with o assms(3) obtain e where
    "r = build_record T (selection cfg groupBy) (selection cfg aggregations) e"
    by (auto simp add: set_order_stage)
  then show ?thesis
    using dom_build_record [of T "selection cfg groupBy" "selection cfg aggregations" "fst e" "snd e"]
    by simp
qed

text \<open>
  C4, as amended. In the record of a group, the field of every aggregation with a
  recognised function is set, and its value is a function of exactly the values of the
  aggregation column whose \<^verbatim>\<open>Number\<close> is not \<open>NaN\<close>: two groups with the same list of
  such values get the same field value, whatever their other cells, rows and group
  columns are. An absent cell and \<^verbatim>\<open>undefined\<close> have \<^verbatim>\<open>Number\<close> \<open>NaN\<close> and are left
  out; \<^verbatim>\<open>null\<close>, the empty text and \<^verbatim>\<open>false\<close> have \<^verbatim>\<open>Number\<close> 0 and take part as
  0. The function \<^verbatim>\<open>count\<close> returns the number of values whose \<^verbatim>\<open>Number\<close> is not
  \<open>NaN\<close>.
\<close>

theorem aggregates_over_coercible_values:
  assumes "agg \<in> set aggs" and "a_function agg \<in> set agg_functions"
    and "[n \<leftarrow> map (\<lambda>r. to_number T (js_get r (a_column agg))) rows. n \<noteq> NaN]
       = [n \<leftarrow> map (\<lambda>r. to_number T (js_get r (a_column agg))) rows'. n \<noteq> NaN]"
  shows "build_record T gb aggs (k, rows) (field_name agg)
           = build_record T gb' aggs (k', rows') (field_name agg)
       \<and> build_record T gb aggs (k, rows) (field_name agg) \<noteq> None
       \<and> (a_function agg = ''count'' \<longrightarrow>
            build_record T gb aggs (k, rows) (field_name agg)
              = Some (JNum (Fin (real (length
                  [n \<leftarrow> map (\<lambda>r. to_number T (js_get r (a_column agg))) rows. n \<noteq> NaN])))))
       \<and> (r c = None \<longrightarrow> to_number T (js_get r c) = NaN)
       \<and> to_number T JUndef = NaN \<and> to_number T JNull = Fin 0
       \<and> to_number T (JStr []) = Fin 0 \<and> to_number T (JBool False) = Fin 0"
proof -
  from assms(1) have ne: "aggs \<noteq> []" by auto
  have v: "agg_values T (a_column agg) rs =
      [n \<leftarrow> map (\<lambda>r. to_number T (js_get r (a_column agg))) rs. n \<noteq> NaN]" for rs
    by (simp add: agg_values_def isNaN_def)
  have f: "build_record T g aggs (key, rs) (field_name agg)
      = agg_result T (a_function agg) (agg_values T (a_column agg) rs)" for g key rs
    using ne by (simp add: build_record_def Let_def foldl_apply_agg_field [OF assms(1,2)])
  have 1: "build_record T gb aggs (k, rows) (field_name agg)
           = build_record T gb' aggs (k', rows') (field_name agg)"
    by (simp only: f v assms(3))
  have 2: "build_record T gb aggs (k, rows) (field_name agg) \<noteq> None"
    using assms(2) by (simp only: f agg_result_recognised)
  have 3: "a_function agg = ''count'' \<longrightarrow>
            build_record T gb aggs (k, rows) (field_name agg)
              = Some (JNum (Fin (real (length
                  [n \<leftarrow> map (\<lambda>r. to_number T (js_get r (a_column agg))) rows. n \<noteq> NaN]))))"
    by (simp add: f v agg_result_def count_of_def)
  have 4: "r c = None \<longrightarrow> to_number T (js_get r c) = NaN"
    by (simp add: absent_not_coercible)
  have 5: "to_number T JUndef = NaN \<and> to_number T JNull = Fin 0
       \<and> to_number T (JStr []) = Fin 0 \<and> to_number T (JBool False) = Fin 0"
    by (simp add: to_number_def to_primitive_def str_to_num_def str_value_def trim_def rounded_def)
  from 1 2 3 4 5 show ?thesis by simp
qed

lemmas eval_defs = stage_defs selection_def group_key_def js_get_def proto_keys_def
  is_nullish_def push_row_def object_entries_def build_record_def apply_agg_def agg_result_def
  agg_values_def key_part_def js_set_def to_number_def to_primitive_def isNaN_def
  sum_values_def count_of_def is_array_index_def index_of_key_def numeral_val_def
  is_digit_def code_def digit_val_def num_to_string_def digit_char_def proto_text_def
  str_to_num_def rounded_def Let_def

lemma str_value_a: "str_value ''a'' = NaN"
  by code_simp

lemma str_value_b: "str_value ''b'' = NaN"
  by code_simp

theorem aggregates_over_coercible_values_witness:
  "build_record small_numbers [''g'']
     [\<lparr>a_column = ''v'', a_function = ''avg''\<rparr>, \<lparr>a_column = ''v'', a_function = ''count''\<rparr>]
     (''x'', [[''v'' \<mapsto> JStr ''a''], [''w'' \<mapsto> JStr ''b''], [''v'' \<mapsto> JNum (Fin 3)]]) ''v_avg''
     = Some (JNum (Fin 3))
   \<and> build_record small_numbers [''g'']
     [\<lparr>a_column = ''v'', a_function = ''avg''\<rparr>, \<lparr>a_column = ''v'', a_function = ''count''\<rparr>]
     (''x'', [[''v'' \<mapsto> JStr ''a''], [''w'' \<mapsto> JStr ''b''], [''v'' \<mapsto> JNum (Fin 3)]]) ''v_count''
     = Some (JNum (Fin 1))"
proof -
  let ?avg = "\<lparr>a_column = ''v'', a_function = ''avg''\<rparr>"
  let ?count = "\<lparr>a_column = ''v'', a_function = ''count''\<rparr>"
  let ?rows = "[[''v'' \<mapsto> JStr ''a''], [''w'' \<mapsto> JStr ''b''], [''v'' \<mapsto> JNum (Fin 3)]]"
  let ?rows' = "[[''v'' \<mapsto> JNum (Fin 3)]]"
  have m: "?avg \<in> set [?avg, ?count]" "?count \<in> set [?avg, ?count]"
    by simp_all
  have f: "a_function ?avg \<in> set agg_functions" "a_function ?count \<in> set agg_functions"
    by (simp_all add: agg_functions_def)
  have e: "[n \<leftarrow> map (\<lambda>r. to_number small_numbers (js_get r (a_column ?avg))) ?rows. n \<noteq> NaN]
      = [n \<leftarrow> map (\<lambda>r. to_number small_numbers (js_get r (a_column ?avg))) ?rows'. n \<noteq> NaN]"
    "[n \<leftarrow> map (\<lambda>r. to_number small_numbers (js_get r (a_column ?count))) ?rows. n \<noteq> NaN]
      = [n \<leftarrow> map (\<lambda>r. to_number small_numbers (js_get r (a_column ?count))) ?rows'. n \<noteq> NaN]"
    by (simp_all add: js_get_def proto_keys_def to_number_def to_primitive_def str_to_num_def
        str_value_a)
  have r: "build_record small_numbers [] [?avg, ?count] ([], ?rows') ''v_avg'' = Some (JNum (Fin 3))"
    "build_record small_numbers [] [?avg, ?count] ([], ?rows') ''v_count'' = Some (JNum (Fin 1))"
    by (simp_all add: eval_defs)
  show ?thesis
    using aggregates_over_coercible_values [OF m(1) f(1) e(1), of "[''g'']" "''x''" "[]" "[]"]
      aggregates_over_coercible_values [OF m(2) f(2) e(2), of "[''g'']" "''x''" "[]" "[]"] r
    by (simp add: field_name_def)
qed

text \<open>
  C4 as stated fails: \<^verbatim>\<open>null\<close> and the empty text are missing values, and they are
  counted as 0, not left out. Over the three cells \<^verbatim>\<open>null\<close>, \<^verbatim>\<open>''\<close> and 3 of one
  group, \<^verbatim>\<open>count\<close> is 3, the number of rows, and \<^verbatim>\<open>avg\<close> is 1.
\<close>

theorem null_is_aggregated_counterexample:
  "processData small_numbers
     [[''g'' \<mapsto> JStr ''x'', ''v'' \<mapsto> JNull], [''g'' \<mapsto> JStr ''x'', ''v'' \<mapsto> JStr []],
      [''g'' \<mapsto> JStr ''x'', ''v'' \<mapsto> JNum (Fin 3)]]
     \<lparr>dataSelection = Some \<lparr>filters = None, groupBy = Some [''g''],
        aggregations = Some [\<lparr>a_column = ''v'', a_function = ''count''\<rparr>,
                             \<lparr>a_column = ''v'', a_function = ''avg''\<rparr>],
        orderBy = None\<rparr>\<rparr>
   = Inr [[''g'' \<mapsto> JStr ''x'', ''v_count'' \<mapsto> JNum (Fin 3), ''v_avg'' \<mapsto> JNum (Fin 1)]]"
  by (simp add: eval_defs str_value_def trim_def)

theorem output_record_fields_witness:
  "processData small_numbers
     [[''g'' \<mapsto> JStr ''x'', ''v'' \<mapsto> JNum (Fin 10), ''w'' \<mapsto> JNum (Fin 1)]]
     \<lparr>dataSelection = Some \<lparr>filters = None, groupBy = Some [''g''],
        aggregations = Some [\<lparr>a_column = ''v'', a_function = ''sum''\<rparr>,
                             \<lparr>a_column = ''v'', a_function = ''mode''\<rparr>],
        orderBy = None\<rparr>\<rparr>
     = Inr [[''g'' \<mapsto> JStr ''x'', ''v_sum'' \<mapsto> JNum (Fin 10)]]
   \<and> dom [''g'' \<mapsto> JStr ''x'', ''v_sum'' \<mapsto> JNum (Fin 10)] =
       (set [''g''] - {''__proto__''})
       \<union> {field_name a | a.
            a \<in> set [\<lparr>a_column = ''v'', a_function = ''sum''\<rparr>,
                       \<lparr>a_column = ''v'', a_function = ''mode''\<rparr>]
            \<and> a_function a \<in> set agg_functions}"
proof -
  let ?cfg = "\<lparr>dataSelection = Some \<lparr>filters = None, groupBy = Some [''g''],
        aggregations = Some [\<lparr>a_column = ''v'', a_function = ''sum''\<rparr>,
                             \<lparr>a_column = ''v'', a_function = ''mode''\<rparr>],
        orderBy = None\<rparr>\<rparr>"
  let ?rows = "[[''g'' \<mapsto> JStr ''x'', ''v'' \<mapsto> JNum (Fin 10), ''w'' \<mapsto> JNum (Fin 1)]]"
  let ?r = "[''g'' \<mapsto> JStr ''x'', ''v_sum'' \<mapsto> JNum (Fin 10)]"
  have g: "selection ?cfg groupBy \<noteq> []"
    by (simp add: selection_def)
  have p: "processData small_numbers ?rows ?cfg = Inr [?r]"
    by (simp add: eval_defs)
  have m: "?r \<in> set [?r]"
    by simp
  show ?thesis
    using output_record_fields [OF g p m] p by (simp add: selection_def)
qed

text \<open>
  C9 as stated fails for a groupBy column named \<^verbatim>\<open>__proto__\<close>: the assignment
  \<^verbatim>\<open>result['__proto__'] = ...\<close> creates no field, and the output record is empty.
\<close>

theorem output_record_fields_counterexample:
  "processData small_numbers [[''a'' \<mapsto> JNum (Fin 1)]]
     \<lparr>dataSelection = Some \<lparr>filters = None, groupBy = Some [''__proto__''],
        aggregations = None, orderBy = None\<rparr>\<rparr>
   = Inr [Map.empty]"
  by (simp add: eval_defs)


subsection \<open>The group stage\<close>

lemma set_first_seen: "set (first_seen xs) = set xs"
  by (induction xs) auto

lemma distinct_first_seen: "distinct (first_seen xs)"
  by (induction xs) (auto simp add: set_first_seen)

lemma first_seen_snoc:
  "first_seen (xs @ [x]) = (if x \<in> set xs then first_seen xs else first_seen xs @ [x])"
proof (induction xs)
  case Nil
  then show ?case by simp
next
  case (Cons y ys)
  have "filter (\<lambda>z. z \<noteq> y) (first_seen ys) = first_seen ys" if "y \<notin> set ys"
    using that by (auto simp add: set_first_seen filter_id_conv)
  then show ?case
    using Cons by (auto simp add: set_first_seen)
qed

lemma insort_key_map:
  "insort_key f (h x) (map h ys) = map h (insort_key (\<lambda>y. f (h y)) x ys)"
  by (induction ys) simp_all

lemma sort_key_map: "sort_key f (map h xs) = map h (sort_key (\<lambda>y. f (h y)) xs)"
  by (induction xs) (simp_all add: insort_key_map)

lemma object_entries_map:
  "object_entries (map (\<lambda>k. (k, G k)) ks) =
     map (\<lambda>k. (k, G k))
       (sort_key index_of_key (filter is_array_index ks) @ filter (\<lambda>k. \<not> is_array_index k) ks)"
  by (simp add: object_entries_def filter_map o_def sort_key_map)

lemma map_of_graph:
  "map_of (map (\<lambda>k. (k, G k)) ks) k = (if k \<in> set ks then Some (G k) else None)"
  by (induction ks) simp_all

lemma filter_unseen: "k \<notin> set (map f xs) \<Longrightarrow> filter (\<lambda>x. f x = k) xs = []"
  by (induction xs) auto

lemma group_rows_snoc:
  "group_rows T gb (rs @ [r]) acc =
     (case group_rows T gb rs acc of Inl e \<Rightarrow> Inl e | Inr g \<Rightarrow> group_rows T gb [r] g)"
  by (induction rs arbitrary: acc) (simp_all add: Let_def split: option.splits)

lemma group_rows_closed:
  "group_rows T gb rows [] =
     (if \<exists>r \<in> set rows. group_key T gb r \<in> set proto_keys then Inl TypeError
      else Inr (grouping T gb rows))"
proof (induction rows rule: rev_induct)
  case Nil
  then show ?case by (simp add: grouping_def)
next
  case (snoc r rows)
  let ?key = "group_key T gb"
  let ?G = "\<lambda>rs k. filter (\<lambda>r. ?key r = k) rs"
  show ?case
  proof (cases "\<exists>r \<in> set rows. ?key r \<in> set proto_keys")
    case True
    then show ?thesis
      using snoc by (auto simp add: group_rows_snoc)
  next
    case False
    then have ih: "group_rows T gb rows [] = Inr (grouping T gb rows)"
      using snoc by simp
    show ?thesis
    proof (cases "?key r \<in> set (map ?key rows)")
      case seen: True
      then have np: "?key r \<notin> set proto_keys"
        using False by auto
      have fs: "first_seen (map ?key rows @ [?key r]) = first_seen (map ?key rows)"
        using seen by (simp add: first_seen_snoc)
      have "push_row (?key r) r (grouping T gb rows) = grouping T gb (rows @ [r])"
        by (simp add: push_row_def grouping_def fs)
      moreover have "map_of (grouping T gb rows) (?key r) = Some (?G rows (?key r))"
        using seen by (simp add: grouping_def map_of_graph set_first_seen)
      ultimately show ?thesis
        using False np by (simp add: group_rows_snoc ih)
    next
      case new: False
      have fs: "first_seen (map ?key rows @ [?key r]) = first_seen (map ?key rows) @ [?key r]"
        using new by (simp add: first_seen_snoc)
      have none: "map_of (grouping T gb rows) (?key r) = None"
        using new by (simp add: grouping_def map_of_graph set_first_seen)
      have e: "?G rows (?key r) = []"
        using new by (rule filter_unseen)
      have "grouping T gb rows @ [(?key r, [r])] = grouping T gb (rows @ [r])"
        using new by (auto simp add: grouping_def fs e set_first_seen)
      then show ?thesis
        using False by (simp add: group_rows_snoc ih none)
    qed
  qed
qed

lemma group_stage_closed:
  assumes "selection cfg groupBy \<noteq> []"
  shows "group_stage T cfg rows =
     (if \<exists>r \<in> set rows. group_key T (selection cfg groupBy) r \<in> set proto_keys
      then Inl TypeError
      else Inr (map (\<lambda>k. build_record T (selection cfg groupBy) (selection cfg aggregations)
                      (k, filter (\<lambda>r. group_key T (selection cfg groupBy) r = k) rows))
             (sort_key index_of_key
                (filter is_array_index (first_seen (map (group_key T (selection cfg groupBy)) rows)))
              @ filter (\<lambda>k. \<not> is_array_index k)
                (first_seen (map (group_key T (selection cfg groupBy)) rows)))))"
  using assms
  by (simp add: group_stage_def group_rows_closed grouping_def object_entries_map o_def)


text \<open>
  C1, as amended. With a non-empty groupBy, and when no group key is the name of a member
  of \<^verbatim>\<open>Object.prototype\<close>, the group stage emits exactly one record per distinct group
  key of the rows it is given, built from the rows with that key. The records follow the
  key order of \<^verbatim>\<open>Object.entries\<close>: the keys that are array indices first, in ascending
  numeric order, then the other keys in first-seen order. When no group key is an array
  index this is the first-seen order.
\<close>

theorem group_stage_records:
  assumes "selection cfg groupBy = gb" and "gb \<noteq> []"
    and "keys = first_seen (map (group_key T gb) rows)"
    and "\<forall>k \<in> set keys. k \<notin> set proto_keys"
  shows "group_stage T cfg rows =
     Inr (map (\<lambda>k. build_record T gb (selection cfg aggregations)
                 (k, filter (\<lambda>r. group_key T gb r = k) rows))
        (sort_key index_of_key (filter is_array_index keys)
         @ filter (\<lambda>k. \<not> is_array_index k) keys))
   \<and> distinct keys \<and> set keys = set (map (group_key T gb) rows)
   \<and> ((\<forall>k \<in> set keys. \<not> is_array_index k) \<longrightarrow>
        sort_key index_of_key (filter is_array_index keys)
          @ filter (\<lambda>k. \<not> is_array_index k) keys = keys)"
proof -
  have 2: "distinct keys \<and> set keys = set (map (group_key T gb) rows)"
    by (simp only: assms(3) distinct_first_seen set_first_seen)
  with assms(4) have "\<not> (\<exists>r \<in> set rows. group_key T gb r \<in> set proto_keys)"
    by auto
  then have 1: "group_stage T cfg rows =
     Inr (map (\<lambda>k. build_record T gb (selection cfg aggregations)
                 (k, filter (\<lambda>r. group_key T gb r = k) rows))
        (sort_key index_of_key (filter is_array_index keys)
         @ filter (\<lambda>k. \<not> is_array_index k) keys))"
    using group_stage_closed [of cfg T rows] assms(1,2,3) by simp
  have 3: "(\<forall>k \<in> set keys. \<not> is_array_index k) \<longrightarrow>
        sort_key index_of_key (filter is_array_index keys)
          @ filter (\<lambda>k. \<not> is_array_index k) keys = keys"
  proof
    assume a: "\<forall>k \<in> set keys. \<not> is_array_index k"
    then have "filter is_array_index keys = []"
      by (simp add: filter_empty_conv)
    moreover from a have "filter (\<lambda>k. \<not> is_array_index k) keys = keys"
      by (simp add: filter_id_conv)
    ultimately show "sort_key index_of_key (filter is_array_index keys)
          @ filter (\<lambda>k. \<not> is_array_index k) keys = keys"
      by simp
  qed
  from 1 2 3 show ?thesis by simp
qed

theorem group_stage_records_witness:
  "group_stage small_numbers
     \<lparr>dataSelection = Some \<lparr>filters = None, groupBy = Some [''g''],
        aggregations = Some [\<lparr>a_column = ''v'', a_function = ''sum''\<rparr>], orderBy = None\<rparr>\<rparr>
     [[''g'' \<mapsto> JStr ''x'', ''v'' \<mapsto> JNum (Fin 10)],
      [''g'' \<mapsto> JStr ''y'', ''v'' \<mapsto> JNum (Fin 5)],
      [''g'' \<mapsto> JStr ''x'', ''v'' \<mapsto> JNum (Fin 20)]]
   = Inr [[''g'' \<mapsto> JStr ''x'', ''v_sum'' \<mapsto> JNum (Fin 30)],
          [''g'' \<mapsto> JStr ''y'', ''v_sum'' \<mapsto> JNum (Fin 5)]]"
proof -
  let ?cfg = "\<lparr>dataSelection = Some \<lparr>filters = None, groupBy = Some [''g''],
        aggregations = Some [\<lparr>a_column = ''v'', a_function = ''sum''\<rparr>], orderBy = None\<rparr>\<rparr>"
  let ?rows = "[[''g'' \<mapsto> JStr ''x'', ''v'' \<mapsto> JNum (Fin 10)],
      [''g'' \<mapsto> JStr ''y'', ''v'' \<mapsto> JNum (Fin 5)],
      [''g'' \<mapsto> JStr ''x'', ''v'' \<mapsto> JNum (Fin 20)]]"
  have g: "selection ?cfg groupBy = [''g'']"
    by (simp add: selection_def)
  have n: "[''g''] \<noteq> []"
    by simp
  have k: "[''x'', ''y''] = first_seen (map (group_key small_numbers [''g'']) ?rows)"
    by (simp add: group_key_def js_get_def is_nullish_def)
  have i: "\<not> is_array_index ''x''" "\<not> is_array_index ''y''"
    by (simp_all add: is_array_index_def is_digit_def code_def)
  have p: "\<forall>k \<in> set [''x'', ''y'']. k \<notin> set proto_keys"
    by (simp add: proto_keys_def)
  show ?thesis
    using group_stage_records [OF g n k p]
    by (simp add: i eval_defs)
qed

text \<open>
  C1 as stated fails when group keys are array indices: grouping by a column that holds
  2 in the first row and 1 in the second emits the record of key 1 first, although key 2
  was seen first.
\<close>

theorem first_seen_order_counterexample:
  "processData small_numbers [[''g'' \<mapsto> JNum (Fin 2)], [''g'' \<mapsto> JNum (Fin 1)]]
     \<lparr>dataSelection = Some \<lparr>filters = None, groupBy = Some [''g''],
        aggregations = None, orderBy = None\<rparr>\<rparr>
   = Inr [[''g'' \<mapsto> JStr ''1''], [''g'' \<mapsto> JStr ''2'']]
   \<and> first_seen (map (group_key small_numbers [''g''])
         [[''g'' \<mapsto> JNum (Fin 2)], [''g'' \<mapsto> JNum (Fin 1)]]) = [''2'', ''1'']"
  by (simp add: eval_defs)


subsection \<open>Rows that differ in a column only the aggregations read\<close>

lemma same_but_refl: "same_but T c r r"
  by (simp add: same_but_def)

lemma same_but_update:
  assumes "r c = None" and "to_number T v = NaN"
  shows "same_but T c r (r(c \<mapsto> v))"
  using assms absent_not_coercible [of r c T]
  by (simp add: same_but_def) (simp add: js_get_def)

lemma same_but_list_update:
  assumes "i < length rows" and "(rows ! i) c = None" and "to_number T v = NaN"
  shows "list_all2 (same_but T c) rows (rows[i := (rows ! i)(c \<mapsto> v)])"
  using assms
  by (auto simp add: list_all2_conv_all_nth nth_list_update same_but_refl same_but_update)

lemma filter_pred_same_but:
  assumes "same_but T c r r'" and "f_column f \<noteq> c"
  shows "filter_pred T f r = filter_pred T f r'"
proof -
  from assms have "js_get r (f_column f) = js_get r' (f_column f)"
    by (simp add: same_but_def)
  then show ?thesis
    by (simp add: filter_pred_def)
qed

lemma filter_rows_same_but:
  assumes "list_all2 (same_but T c) rows rows'" and "f_column f \<noteq> c"
  shows "rel_sum (=) (list_all2 (same_but T c)) (filter_rows T f rows) (filter_rows T f rows')"
  using assms(1)
proof (induction rule: list_all2_induct)
  case Nil
  then show ?case by simp
next
  case (Cons r rs r' rs')
  have p: "filter_pred T f r = filter_pred T f r'"
    using Cons.hyps(1) assms(2) by (rule filter_pred_same_but)
  show ?case
  proof (cases "filter_pred T f r'")
    case (Inl e)
    then show ?thesis by (simp add: p)
  next
    case (Inr keep)
    with Cons.IH Cons.hyps(1) show ?thesis
      by (cases "filter_rows T f rs"; cases "filter_rows T f rs'") (simp_all add: p)
  qed
qed

lemma apply_filters_same_but:
  assumes "list_all2 (same_but T c) rows rows'" and "c \<notin> f_column ` set fs"
  shows "rel_sum (=) (list_all2 (same_but T c)) (apply_filters T fs rows) (apply_filters T fs rows')"
  using assms
proof (induction fs arbitrary: rows rows')
  case Nil
  then show ?case by simp
next
  case (Cons f fs)
  then have "f_column f \<noteq> c" by auto
  with Cons.prems(1) have
    "rel_sum (=) (list_all2 (same_but T c)) (filter_rows T f rows) (filter_rows T f rows')"
    by (rule filter_rows_same_but)
  then show ?case
    using Cons.IH Cons.prems(2)
    by (cases "filter_rows T f rows"; cases "filter_rows T f rows'") simp_all
qed

lemma filter_stage_same_but:
  assumes "list_all2 (same_but T c) rows rows'" and "c \<notin> f_column ` set (selection cfg filters)"
  shows "rel_sum (=) (list_all2 (same_but T c)) (filter_stage T cfg rows) (filter_stage T cfg rows')"
  using assms by (simp add: filter_stage_def apply_filters_same_but)

lemma group_key_same_but:
  assumes "same_but T c r r'" and "c \<notin> set gb"
  shows "group_key T gb r = group_key T gb r'"
proof -
  have "\<forall>col \<in> set gb. js_get r col = js_get r' col"
    using assms by (auto simp add: same_but_def)
  then show ?thesis
    by (simp add: group_key_def cong: map_cong)
qed

lemma keys_same_but:
  assumes "list_all2 (same_but T c) rows rows'" and "c \<notin> set gb"
  shows "map (group_key T gb) rows = map (group_key T gb) rows'"
  using assms(1)
  by (induction rule: list_all2_induct) (simp_all add: group_key_same_but [OF _ assms(2)])

lemma group_same_but:
  assumes "list_all2 (same_but T c) rows rows'" and "c \<notin> set gb"
  shows "list_all2 (same_but T c) (filter (\<lambda>r. group_key T gb r = k) rows)
           (filter (\<lambda>r. group_key T gb r = k) rows')"
  using assms(1)
  by (induction rule: list_all2_induct) (simp_all add: group_key_same_but [OF _ assms(2)])

lemma agg_values_same_but:
  assumes "list_all2 (same_but T c) rows rows'"
  shows "agg_values T col rows = agg_values T col rows'"
proof -
  have "map (\<lambda>r. to_number T (js_get r col)) rows = map (\<lambda>r. to_number T (js_get r col)) rows'"
    using assms
  proof (induction rule: list_all2_induct)
    case Nil
    then show ?case by simp
  next
    case (Cons r rs r' rs')
    from Cons.hyps(1) have "to_number T (js_get r col) = to_number T (js_get r' col)"
      by (cases "col = c") (simp_all add: same_but_def)
    with Cons.IH show ?case by simp
  qed
  then show ?thesis
    by (simp add: agg_values_def)
qed

lemma build_record_same_but:
  assumes "list_all2 (same_but T c) rows rows'"
  shows "build_record T gb aggs (k, rows) = build_record T gb aggs (k, rows')"
proof -
  have h: "apply_agg T rows = apply_agg T rows'"
    by (intro ext) (simp add: apply_agg_def agg_values_same_but [OF assms])
  show ?thesis
    by (simp add: build_record_def Let_def h)
qed

lemma group_stage_same_but:
  assumes "list_all2 (same_but T c) rows rows'" and "c \<notin> set (selection cfg groupBy)"
    and "selection cfg groupBy \<noteq> []"
  shows "group_stage T cfg rows = group_stage T cfg rows'"
proof -
  let ?gb = "selection cfg groupBy"
  have k: "map (group_key T ?gb) rows = map (group_key T ?gb) rows'"
    using assms(1,2) by (rule keys_same_but)
  have "(\<exists>r \<in> set rows. group_key T ?gb r \<in> set proto_keys)
      = (\<exists>key \<in> set (map (group_key T ?gb) rows). key \<in> set proto_keys)"
    by auto
  also have "\<dots> = (\<exists>r \<in> set rows'. group_key T ?gb r \<in> set proto_keys)"
    unfolding k by auto
  finally have e: "(\<exists>r \<in> set rows. group_key T ?gb r \<in> set proto_keys)
      = (\<exists>r \<in> set rows'. group_key T ?gb r \<in> set proto_keys)" .
  have b: "build_record T ?gb (selection cfg aggregations)
             (key, filter (\<lambda>r. group_key T ?gb r = key) rows)
         = build_record T ?gb (selection cfg aggregations)
             (key, filter (\<lambda>r. group_key T ?gb r = key) rows')" for key
    using group_same_but [OF assms(1,2)] by (rule build_record_same_but)
  show ?thesis
    by (simp only: group_stage_closed [OF assms(3)] e k b)
qed

text \<open>
  C3, as amended. An absent key counts as a value that is not numeric, not as an explicit
  \<^verbatim>\<open>null\<close>. With a non-empty groupBy, replacing in any row an absent key \<open>c\<close>,
  where \<open>c\<close> is neither a groupBy column nor the column of a filter, by an explicit
  value whose \<^verbatim>\<open>Number\<close> is \<open>NaN\<close> (\<^verbatim>\<open>undefined\<close>, a text that is no numeral)
  leaves the whole output unchanged, and so every aggregate field.
\<close>

theorem absent_key_like_non_numeric:
  assumes "selection cfg groupBy \<noteq> []"
    and "c \<notin> set (selection cfg groupBy)"
    and "c \<notin> f_column ` set (selection cfg filters)"
    and "i < length rows" and "(rows ! i) c = None"
    and "to_number T v = NaN"
  shows "processData T (rows[i := (rows ! i)(c \<mapsto> v)]) cfg = processData T rows cfg"
proof -
  let ?rows' = "rows[i := (rows ! i)(c \<mapsto> v)]"
  have s: "list_all2 (same_but T c) rows ?rows'"
    using assms(4,5,6) by (rule same_but_list_update)
  then have f: "rel_sum (=) (list_all2 (same_but T c)) (filter_stage T cfg rows)
      (filter_stage T cfg ?rows')"
    using assms(3) by (rule filter_stage_same_but)
  show ?thesis
  proof (cases "filter_stage T cfg rows")
    case (Inl e)
    with f show ?thesis
      by (cases "filter_stage T cfg ?rows'") (simp_all add: processData_def)
  next
    case (Inr kept)
    with f obtain kept' where k: "filter_stage T cfg ?rows' = Inr kept'"
      and r: "list_all2 (same_but T c) kept kept'"
      by (cases "filter_stage T cfg ?rows'") simp_all
    have "group_stage T cfg kept = group_stage T cfg kept'"
      using r assms(2,1) by (rule group_stage_same_but)
    then show ?thesis
      by (simp add: processData_def Inr k)
  qed
qed


lemma str_value_na: "str_value ''n/a'' = NaN"
  by code_simp

theorem absent_key_like_non_numeric_witness:
  "processData small_numbers
     [[''g'' \<mapsto> JStr ''x'', ''v'' \<mapsto> JNum (Fin 10)], [''g'' \<mapsto> JStr ''x'', ''v'' \<mapsto> JStr ''n/a'']]
     \<lparr>dataSelection = Some \<lparr>filters = None, groupBy = Some [''g''],
        aggregations = Some [\<lparr>a_column = ''v'', a_function = ''avg''\<rparr>,
                             \<lparr>a_column = ''v'', a_function = ''count''\<rparr>],
        orderBy = None\<rparr>\<rparr>
   = Inr [[''g'' \<mapsto> JStr ''x'', ''v_avg'' \<mapsto> JNum (Fin 10), ''v_count'' \<mapsto> JNum (Fin 1)]]"
proof -
  let ?cfg = "\<lparr>dataSelection = Some \<lparr>filters = None, groupBy = Some [''g''],
        aggregations = Some [\<lparr>a_column = ''v'', a_function = ''avg''\<rparr>,
                             \<lparr>a_column = ''v'', a_function = ''count''\<rparr>],
        orderBy = None\<rparr>\<rparr>"
  let ?rows = "[[''g'' \<mapsto> JStr ''x'', ''v'' \<mapsto> JNum (Fin 10)], [''g'' \<mapsto> JStr ''x'']]"
  have 1: "selection ?cfg groupBy \<noteq> []"
    by (simp add: selection_def)
  have 2: "''v'' \<notin> set (selection ?cfg groupBy)"
    by (simp add: selection_def)
  have 3: "''v'' \<notin> f_column ` set (selection ?cfg filters)"
    by (simp add: selection_def)
  have 4: "Suc 0 < length ?rows"
    by simp
  have 5: "(?rows ! Suc 0) ''v'' = None"
    by simp
  have 6: "to_number small_numbers (JStr ''n/a'') = NaN"
    by (simp add: to_number_def to_primitive_def str_to_num_def str_value_na)
  have "processData small_numbers ?rows ?cfg
      = Inr [[''g'' \<mapsto> JStr ''x'', ''v_avg'' \<mapsto> JNum (Fin 10), ''v_count'' \<mapsto> JNum (Fin 1)]]"
    by (simp add: eval_defs)
  with absent_key_like_non_numeric [OF 1 2 3 4 5 6] show ?thesis
    by simp
qed

text \<open>
  C3 as stated fails: \<^verbatim>\<open>Number(null)\<close> is 0, so an explicit \<^verbatim>\<open>null\<close> is
  aggregated where an absent key is left out. With the key absent the average is 10 and
  the count 1; with an explicit \<^verbatim>\<open>null\<close> the average is 5 and the count 2.
\<close>

theorem absent_key_as_null_counterexample:
  "processData small_numbers
     [[''g'' \<mapsto> JStr ''x'', ''v'' \<mapsto> JNum (Fin 10)], [''g'' \<mapsto> JStr ''x'']]
     \<lparr>dataSelection = Some \<lparr>filters = None, groupBy = Some [''g''],
        aggregations = Some [\<lparr>a_column = ''v'', a_function = ''avg''\<rparr>,
                             \<lparr>a_column = ''v'', a_function = ''count''\<rparr>],
        orderBy = None\<rparr>\<rparr>
   = Inr [[''g'' \<mapsto> JStr ''x'', ''v_avg'' \<mapsto> JNum (Fin 10), ''v_count'' \<mapsto> JNum (Fin 1)]]
   \<and> processData small_numbers
     [[''g'' \<mapsto> JStr ''x'', ''v'' \<mapsto> JNum (Fin 10)], [''g'' \<mapsto> JStr ''x'', ''v'' \<mapsto> JNull]]
     \<lparr>dataSelection = Some \<lparr>filters = None, groupBy = Some [''g''],
        aggregations = Some [\<lparr>a_column = ''v'', a_function = ''avg''\<rparr>,
                             \<lparr>a_column = ''v'', a_function = ''count''\<rparr>],
        orderBy = None\<rparr>\<rparr>
   = Inr [[''g'' \<mapsto> JStr ''x'', ''v_avg'' \<mapsto> JNum (Fin 5), ''v_count'' \<mapsto> JNum (Fin 2)]]"
  by (simp add: eval_defs)


subsection \<open>The order stage\<close>

lemma str_lt_asym: "str_lt s t \<Longrightarrow> \<not> str_lt t s"
  by (induction s t rule: str_lt.induct) auto

lemma num_lt_asym: "num_lt a b \<Longrightarrow> \<not> num_lt b a"
  by (cases a; cases b) simp_all

lemma js_lt_asym: "js_lt T x y \<Longrightarrow> \<not> js_lt T y x"
  by (cases "to_primitive T x"; cases "to_primitive T y")
    (auto simp add: js_lt_def dest: str_lt_asym num_lt_asym)

lemma compare_rows_range: "compare_rows T specs a b \<in> {Fin (- 1), Fin 0, Fin 1}"
  by (induction specs) (simp_all add: Let_def)

lemma compare_rows_flip: "compare_rows T specs b a = js_neg (compare_rows T specs a b)"
proof (induction specs)
  case Nil
  then show ?case by simp
next
  case (Cons s ss)
  let ?x = "js_get a (o_column s)" and ?y = "js_get b (o_column s)"
  consider "js_lt T ?x ?y" | "js_lt T ?y ?x" | "\<not> js_lt T ?x ?y" "\<not> js_lt T ?y ?x"
    by blast
  then show ?case
  proof cases
    case 1
    then have "\<not> js_lt T ?y ?x" by (rule js_lt_asym)
    with 1 show ?thesis by (simp add: Let_def js_gt_def)
  next
    case 2
    then have "\<not> js_lt T ?x ?y" by (rule js_lt_asym)
    with 2 show ?thesis by (simp add: Let_def js_gt_def)
  next
    case 3
    with Cons show ?thesis by (simp add: Let_def js_gt_def)
  qed
qed

lemma ranks_after_total: "ranks_after T specs a b \<Longrightarrow> \<not> ranks_after T specs b a"
  using compare_rows_range [of T specs a b]
  by (auto simp add: ranks_after_def compare_rows_flip [where a = a and b = b])

lemma tied_flip: "tied T specs a b = tied T specs b a"
  using compare_rows_range [of T specs a b]
  by (auto simp add: tied_def compare_rows_flip [where a = a and b = b])

lemma tied_not_after: "tied T specs a b \<Longrightarrow> \<not> ranks_after T specs a b"
  by (simp add: tied_def ranks_after_def)

lemma mset_sort_insert: "mset (sort_insert cmp x xs) = add_mset x (mset xs)"
  by (induction xs) simp_all

lemma mset_js_sort: "mset (js_sort cmp xs) = mset xs"
  by (induction xs) (simp_all add: mset_sort_insert)

lemma sorted_sort_insert:
  assumes "consistent_on T specs rows" and "x \<in> set rows" and "set ys \<subseteq> set rows"
    and "sorted_wrt (\<lambda>a b. \<not> ranks_after T specs a b) ys"
  shows "sorted_wrt (\<lambda>a b. \<not> ranks_after T specs a b) (sort_insert (compare_rows T specs) x ys)"
  using assms(3,4)
proof (induction ys)
  case Nil
  then show ?case by simp
next
  case (Cons y ys)
  show ?case
  proof (cases "ranks_after T specs x y")
    case True
    then have "\<not> ranks_after T specs y x"
      by (rule ranks_after_total)
    with True Cons show ?thesis
      by (auto simp add: ranks_after_def [symmetric] set_sort_insert)
  next
    case False
    have "\<not> ranks_after T specs x z" if "z \<in> set ys" for z
    proof -
      from Cons.prems that have "\<not> ranks_after T specs y z" by simp
      with False assms(1,2) Cons.prems(1) that show ?thesis
        unfolding consistent_on_def by (meson list.set_intros subsetD)
    qed
    with False Cons.prems(2) show ?thesis
      by (simp add: ranks_after_def [symmetric])
  qed
qed

lemma sorted_js_sort:
  assumes "consistent_on T specs rows" and "set xs \<subseteq> set rows"
  shows "sorted_wrt (\<lambda>a b. \<not> ranks_after T specs a b) (js_sort (compare_rows T specs) xs)"
  using assms(2)
proof (induction xs)
  case Nil
  then show ?case by simp
next
  case (Cons x xs)
  then show ?case
    using sorted_sort_insert [OF assms(1), of x "js_sort (compare_rows T specs) xs"]
    by (simp add: set_js_sort)
qed

lemma filter_sort_insert_neg:
  "\<not> P x \<Longrightarrow> filter P (sort_insert cmp x ys) = filter P ys"
  by (induction ys) simp_all

lemma filter_sort_insert_pos:
  assumes "P x" and "\<forall>y \<in> set ys. num_lt (Fin 0) (cmp x y) \<longrightarrow> \<not> P y"
  shows "filter P (sort_insert cmp x ys) = x # filter P ys"
  using assms(2) by (induction ys) (simp_all add: assms(1))

lemma stable_js_sort:
  assumes "consistent_on T specs rows" and "z \<in> set rows" and "set xs \<subseteq> set rows"
  shows "filter (tied T specs z) (js_sort (compare_rows T specs) xs) = filter (tied T specs z) xs"
  using assms(3)
proof (induction xs)
  case Nil
  then show ?case by simp
next
  case (Cons x xs)
  show ?case
  proof (cases "tied T specs z x")
    case False
    with Cons show ?thesis
      by (simp add: filter_sort_insert_neg)
  next
    case True
    have "\<not> tied T specs z y" if y: "y \<in> set rows" and after: "ranks_after T specs x y" for y
    proof
      assume "tied T specs z y"
      then have zy: "\<not> ranks_after T specs z y"
        by (rule tied_not_after)
      from True have "tied T specs x z"
        by (simp add: tied_flip)
      then have "\<not> ranks_after T specs x z"
        by (rule tied_not_after)
      with zy assms(1,2) Cons.prems y have "\<not> ranks_after T specs x y"
        unfolding consistent_on_def by (meson list.set_intros subsetD)
      with after show False by simp
    qed
    then have "\<forall>y \<in> set (js_sort (compare_rows T specs) xs).
        num_lt (Fin 0) (compare_rows T specs x y) \<longrightarrow> \<not> tied T specs z y"
      using Cons.prems by (auto simp add: set_js_sort ranks_after_def)
    with True Cons show ?thesis
      by (simp add: filter_sort_insert_pos)
  qed
qed

lemma compare_rows_lexicographic:
  "compare_rows T (s # ss) a b =
     (if compare_rows T [s] a b \<noteq> Fin 0 then compare_rows T [s] a b
      else compare_rows T ss a b)"
  by (simp add: Let_def)


lemma code_inject: "code c = code d \<Longrightarrow> c = d"
  by (simp add: code_def)

lemma str_lt_negtrans: "\<not> str_lt s t \<Longrightarrow> \<not> str_lt t u \<Longrightarrow> \<not> str_lt s u"
proof (induction s arbitrary: t u)
  case Nil
  then show ?case
    by (cases t; cases u) simp_all
next
  case (Cons c cs)
  show ?case
  proof (cases t)
    case Nil
    with Cons.prems show ?thesis
      by (cases u) simp_all
  next
    case t: (Cons d ds)
    show ?thesis
    proof (cases u)
      case Nil
      then show ?thesis by simp
    next
      case u: (Cons e es)
      from Cons.prems t u have 1: "code d \<le> code c" "c = d \<longrightarrow> \<not> str_lt cs ds"
        and 2: "code e \<le> code d" "d = e \<longrightarrow> \<not> str_lt ds es"
        by auto
      have "\<not> str_lt cs es" if "c = e"
      proof -
        from that 1(1) 2(1) have "code c = code d" "code d = code e"
          by simp_all
        then have "c = d" "d = e"
          by (auto dest: code_inject)
        with 1(2) 2(2) show ?thesis
          by (auto dest: Cons.IH)
      qed
      with 1(1) 2(1) u show ?thesis
        by auto
    qed
  qed
qed

lemma ranks_after_Cons:
  "ranks_after T (s # ss) a b =
     (if o_direction s = ''asc''
      then \<not> js_lt T (js_get a (o_column s)) (js_get b (o_column s))
           \<and> (js_lt T (js_get b (o_column s)) (js_get a (o_column s)) \<or> ranks_after T ss a b)
      else js_lt T (js_get a (o_column s)) (js_get b (o_column s))
           \<or> (\<not> js_lt T (js_get b (o_column s)) (js_get a (o_column s)) \<and> ranks_after T ss a b))"
  by (simp add: ranks_after_def Let_def js_gt_def)

lemma consistent_on_columns:
  assumes "\<forall>s \<in> set specs. ordered_column T rows (o_column s)"
  shows "consistent_on T specs rows"
  using assms
proof (induction specs)
  case Nil
  then show ?case
    by (simp add: consistent_on_def ranks_after_def)
next
  case (Cons s ss)
  from Cons.prems have "\<forall>s \<in> set ss. ordered_column T rows (o_column s)"
    by simp
  then have ih: "consistent_on T ss rows"
    by (rule Cons.IH)
  from Cons.prems have col: "ordered_column T rows (o_column s)"
    by simp
  have n: "\<not> js_lt T (js_get p (o_column s)) (js_get r (o_column s))"
    if "p \<in> set rows" "q \<in> set rows" "r \<in> set rows"
      and "\<not> js_lt T (js_get p (o_column s)) (js_get q (o_column s))"
      and "\<not> js_lt T (js_get q (o_column s)) (js_get r (o_column s))" for p q r
    using col that unfolding ordered_column_def by blast
  show ?case
    unfolding consistent_on_def
  proof (intro ballI impI)
    fix a b c
    assume m: "a \<in> set rows" "b \<in> set rows" "c \<in> set rows"
      and h: "\<not> ranks_after T (s # ss) a b \<and> \<not> ranks_after T (s # ss) b c"
    define x where "x = js_get a (o_column s)"
    define y where "y = js_get b (o_column s)"
    define z where "z = js_get c (o_column s)"
    have t: "\<not> ranks_after T ss a b \<Longrightarrow> \<not> ranks_after T ss b c \<Longrightarrow> \<not> ranks_after T ss a c"
      using ih m unfolding consistent_on_def by blast
    have n1: "\<not> js_lt T x y \<Longrightarrow> \<not> js_lt T y z \<Longrightarrow> \<not> js_lt T x z"
      unfolding x_def y_def z_def by (rule n [OF m(1) m(2) m(3)])
    have n2: "\<not> js_lt T z y \<Longrightarrow> \<not> js_lt T y x \<Longrightarrow> \<not> js_lt T z x"
      unfolding x_def y_def z_def by (rule n [OF m(3) m(2) m(1)])
    have n3: "\<not> js_lt T x z \<Longrightarrow> \<not> js_lt T z y \<Longrightarrow> \<not> js_lt T x y"
      unfolding x_def y_def z_def by (rule n [OF m(1) m(3) m(2)])
    have n4: "\<not> js_lt T y x \<Longrightarrow> \<not> js_lt T x z \<Longrightarrow> \<not> js_lt T y z"
      unfolding x_def y_def z_def by (rule n [OF m(2) m(1) m(3)])
    have n5: "\<not> js_lt T y z \<Longrightarrow> \<not> js_lt T z x \<Longrightarrow> \<not> js_lt T y x"
      unfolding x_def y_def z_def by (rule n [OF m(2) m(3) m(1)])
    have n6: "\<not> js_lt T z x \<Longrightarrow> \<not> js_lt T x y \<Longrightarrow> \<not> js_lt T z y"
      unfolding x_def y_def z_def by (rule n [OF m(3) m(1) m(2)])
    have a1: "js_lt T x y \<Longrightarrow> \<not> js_lt T y x" and a2: "js_lt T y z \<Longrightarrow> \<not> js_lt T z y"
      and a3: "js_lt T x z \<Longrightarrow> \<not> js_lt T z x"
      by (auto dest: js_lt_asym)
    have ab: "ranks_after T (s # ss) a b =
        (if o_direction s = ''asc'' then \<not> js_lt T x y \<and> (js_lt T y x \<or> ranks_after T ss a b)
         else js_lt T x y \<or> (\<not> js_lt T y x \<and> ranks_after T ss a b))"
      unfolding x_def y_def by (rule ranks_after_Cons)
    have bc: "ranks_after T (s # ss) b c =
        (if o_direction s = ''asc'' then \<not> js_lt T y z \<and> (js_lt T z y \<or> ranks_after T ss b c)
         else js_lt T y z \<or> (\<not> js_lt T z y \<and> ranks_after T ss b c))"
      unfolding y_def z_def by (rule ranks_after_Cons)
    have ac: "ranks_after T (s # ss) a c =
        (if o_direction s = ''asc'' then \<not> js_lt T x z \<and> (js_lt T z x \<or> ranks_after T ss a c)
         else js_lt T x z \<or> (\<not> js_lt T z x \<and> ranks_after T ss a c))"
      unfolding x_def z_def by (rule ranks_after_Cons)
    show "\<not> ranks_after T (s # ss) a c"
    proof (cases "o_direction s = ''asc''")
      case True
      from h have "js_lt T x y \<or> (\<not> js_lt T y x \<and> \<not> ranks_after T ss a b)"
        and "js_lt T y z \<or> (\<not> js_lt T z y \<and> \<not> ranks_after T ss b c)"
        by (auto simp add: ab bc True)
      then have "js_lt T x z \<or> (\<not> js_lt T z x \<and> \<not> ranks_after T ss a c)"
        using t n1 n2 n3 n4 n5 n6 a1 a2 a3 by blast
      then show ?thesis
        by (auto simp add: ac True)
    next
      case False
      from h have "\<not> js_lt T x y \<and> (js_lt T y x \<or> \<not> ranks_after T ss a b)"
        and "\<not> js_lt T y z \<and> (js_lt T z y \<or> \<not> ranks_after T ss b c)"
        by (auto simp add: ab bc False)
      then have "\<not> js_lt T x z \<and> (js_lt T z x \<or> \<not> ranks_after T ss a c)"
        using t n1 n2 n3 n4 n5 n6 a1 a2 a3 by blast
      then show ?thesis
        by (auto simp add: ac False)
    qed
  qed
qed


lemma consistent_on_numbers_or_texts:
  assumes "\<forall>s \<in> set specs.
      (\<forall>r \<in> set rows. \<exists>x. js_get r (o_column s) = JNum (Fin x))
      \<or> (\<forall>r \<in> set rows. \<exists>t. js_get r (o_column s) = JStr t)"
  shows "consistent_on T specs rows"
proof (rule consistent_on_columns, rule ballI)
  fix s
  assume "s \<in> set specs"
  with assms consider
    (numbers) "\<forall>r \<in> set rows. \<exists>x. js_get r (o_column s) = JNum (Fin x)"
    | (texts) "\<forall>r \<in> set rows. \<exists>t. js_get r (o_column s) = JStr t"
    by blast
  then show "ordered_column T rows (o_column s)"
  proof cases
    case numbers
    show ?thesis
      unfolding ordered_column_def
    proof (intro ballI impI)
      fix a b c
      assume m: "a \<in> set rows" "b \<in> set rows" "c \<in> set rows"
        and h: "\<not> js_lt T (js_get a (o_column s)) (js_get b (o_column s))
          \<and> \<not> js_lt T (js_get b (o_column s)) (js_get c (o_column s))"
      from numbers m obtain x y z where
        "js_get a (o_column s) = JNum (Fin x)" "js_get b (o_column s) = JNum (Fin y)"
        "js_get c (o_column s) = JNum (Fin z)"
        by blast
      with h show "\<not> js_lt T (js_get a (o_column s)) (js_get c (o_column s))"
        by (simp add: js_lt_def to_primitive_def to_number_def)
    qed
  next
    case texts
    show ?thesis
      unfolding ordered_column_def
    proof (intro ballI impI)
      fix a b c
      assume m: "a \<in> set rows" "b \<in> set rows" "c \<in> set rows"
        and h: "\<not> js_lt T (js_get a (o_column s)) (js_get b (o_column s))
          \<and> \<not> js_lt T (js_get b (o_column s)) (js_get c (o_column s))"
      from texts m obtain x y z where
        "js_get a (o_column s) = JStr x" "js_get b (o_column s) = JStr y"
        "js_get c (o_column s) = JStr z"
        by blast
      with h show "\<not> js_lt T (js_get a (o_column s)) (js_get c (o_column s))"
        by (auto simp add: js_lt_def to_primitive_def dest: str_lt_negtrans)
    qed
  qed
qed

text \<open>
  C5, as amended. For a non-empty orderBy and records on which the comparator is
  consistent, the order stage returns a permutation of the records in which no record
  ranks after a later one, so that for two records the first spec with a nonzero
  comparison decides and later specs break ties; records tied on all specs keep their
  relative input order. The comparator itself is lexicographic in the specs.
\<close>

theorem order_stage_sorts:
  assumes "selection cfg orderBy = specs" and "specs \<noteq> []"
    and "consistent_on T specs rows"
    and "out = order_stage T cfg rows"
  shows "mset out = mset rows
   \<and> sorted_wrt (\<lambda>a b. \<not> ranks_after T specs a b) out
   \<and> (\<forall>z \<in> set rows. filter (tied T specs z) out = filter (tied T specs z) rows)
   \<and> compare_rows T (s # ss) a b =
       (if compare_rows T [s] a b \<noteq> Fin 0 then compare_rows T [s] a b
        else compare_rows T ss a b)"
proof -
  have o: "out = js_sort (compare_rows T specs) rows"
    using assms(1,2,4) by (simp add: order_stage_def)
  have 1: "mset out = mset rows"
    by (simp add: o mset_js_sort)
  have 2: "sorted_wrt (\<lambda>a b. \<not> ranks_after T specs a b) out"
    unfolding o using assms(3) by (rule sorted_js_sort) simp
  have 3: "\<forall>z \<in> set rows. filter (tied T specs z) out = filter (tied T specs z) rows"
    unfolding o using stable_js_sort [OF assms(3)] by simp
  have 4: "compare_rows T (s # ss) a b =
       (if compare_rows T [s] a b \<noteq> Fin 0 then compare_rows T [s] a b
        else compare_rows T ss a b)"
    by (rule compare_rows_lexicographic)
  from 1 2 3 4 show ?thesis
    by blast
qed


lemmas order_defs = js_lt_def js_gt_def to_primitive_def to_number_def js_get_def proto_keys_def

theorem order_stage_sorts_witness:
  "order_stage small_numbers
     \<lparr>dataSelection = Some \<lparr>filters = None, groupBy = None, aggregations = None,
        orderBy = Some [\<lparr>o_column = ''a'', o_direction = ''asc''\<rparr>]\<rparr>\<rparr>
     [[''a'' \<mapsto> JNum (Fin 2), ''b'' \<mapsto> JNum (Fin 0)],
      [''a'' \<mapsto> JNum (Fin 1), ''b'' \<mapsto> JNum (Fin 1)],
      [''a'' \<mapsto> JNum (Fin 1), ''b'' \<mapsto> JNum (Fin 2)]]
   = [[''a'' \<mapsto> JNum (Fin 1), ''b'' \<mapsto> JNum (Fin 1)],
      [''a'' \<mapsto> JNum (Fin 1), ''b'' \<mapsto> JNum (Fin 2)],
      [''a'' \<mapsto> JNum (Fin 2), ''b'' \<mapsto> JNum (Fin 0)]]
   \<and> sorted_wrt
       (\<lambda>a b. \<not> ranks_after small_numbers [\<lparr>o_column = ''a'', o_direction = ''asc''\<rparr>] a b)
       [[''a'' \<mapsto> JNum (Fin 1), ''b'' \<mapsto> JNum (Fin 1)],
        [''a'' \<mapsto> JNum (Fin 1), ''b'' \<mapsto> JNum (Fin 2)],
        [''a'' \<mapsto> JNum (Fin 2), ''b'' \<mapsto> JNum (Fin 0)]]"
proof -
  let ?cfg = "\<lparr>dataSelection = Some \<lparr>filters = None, groupBy = None, aggregations = None,
        orderBy = Some [\<lparr>o_column = ''a'', o_direction = ''asc''\<rparr>]\<rparr>\<rparr>"
  let ?specs = "[\<lparr>o_column = ''a'', o_direction = ''asc''\<rparr>]"
  let ?r1 = "[''a'' \<mapsto> JNum (Fin 2), ''b'' \<mapsto> JNum (Fin 0)]"
  let ?r2 = "[''a'' \<mapsto> JNum (Fin 1), ''b'' \<mapsto> JNum (Fin 1)]"
  let ?r3 = "[''a'' \<mapsto> JNum (Fin 1), ''b'' \<mapsto> JNum (Fin 2)]"
  let ?cmp = "compare_rows small_numbers ?specs"
  have c: "?cmp ?r1 ?r1 = Fin 0" "?cmp ?r1 ?r2 = Fin 1" "?cmp ?r1 ?r3 = Fin 1"
    "?cmp ?r2 ?r1 = Fin (- 1)" "?cmp ?r2 ?r2 = Fin 0" "?cmp ?r2 ?r3 = Fin 0"
    "?cmp ?r3 ?r1 = Fin (- 1)" "?cmp ?r3 ?r2 = Fin 0" "?cmp ?r3 ?r3 = Fin 0"
    by (simp_all add: order_defs)
  have 1: "selection ?cfg orderBy = ?specs"
    by (simp add: selection_def)
  have 2: "?specs \<noteq> []"
    by simp
  have 3: "consistent_on small_numbers ?specs [?r1, ?r2, ?r3]"
    unfolding consistent_on_def ranks_after_def by (simp add: c del: compare_rows.simps)
  have 4: "[?r2, ?r3, ?r1] = order_stage small_numbers ?cfg [?r1, ?r2, ?r3]"
    unfolding order_stage_def 1 by (simp add: c del: compare_rows.simps)
  show ?thesis
    using order_stage_sorts [OF 1 2 3 4] 4 by simp
qed

text \<open>
  C5 as stated fails when a cell of the orderBy column is missing. The second record has
  no column \<^verbatim>\<open>a\<close>, so it ties with the first and with the third; the sort leaves the
  three records in place, and the first (2) stays before the third (1) although the
  comparison of the two is nonzero and ranks it after. No order can meet the claim here:
  the ties would keep the first before the second and the second before the third.
\<close>

theorem order_stage_counterexample:
  "processData small_numbers [[''a'' \<mapsto> JNum (Fin 2)], Map.empty, [''a'' \<mapsto> JNum (Fin 1)]]
     \<lparr>dataSelection = Some \<lparr>filters = None, groupBy = None, aggregations = None,
        orderBy = Some [\<lparr>o_column = ''a'', o_direction = ''asc''\<rparr>]\<rparr>\<rparr>
   = Inr [[''a'' \<mapsto> JNum (Fin 2)], Map.empty, [''a'' \<mapsto> JNum (Fin 1)]]
   \<and> compare_rows small_numbers [\<lparr>o_column = ''a'', o_direction = ''asc''\<rparr>]
       [''a'' \<mapsto> JNum (Fin 2)] [''a'' \<mapsto> JNum (Fin 1)] = Fin 1
   \<and> compare_rows small_numbers [\<lparr>o_column = ''a'', o_direction = ''asc''\<rparr>]
       [''a'' \<mapsto> JNum (Fin 2)] Map.empty = Fin 0
   \<and> compare_rows small_numbers [\<lparr>o_column = ''a'', o_direction = ''asc''\<rparr>]
       Map.empty [''a'' \<mapsto> JNum (Fin 1)] = Fin 0"
proof -
  let ?cfg = "\<lparr>dataSelection = Some \<lparr>filters = None, groupBy = None, aggregations = None,
        orderBy = Some [\<lparr>o_column = ''a'', o_direction = ''asc''\<rparr>]\<rparr>\<rparr>"
  let ?specs = "[\<lparr>o_column = ''a'', o_direction = ''asc''\<rparr>]"
  let ?r1 = "[''a'' \<mapsto> JNum (Fin 2)]"
  let ?r2 = "Map.empty :: row"
  let ?r3 = "[''a'' \<mapsto> JNum (Fin 1)]"
  let ?cmp = "compare_rows small_numbers ?specs"
  have c: "?cmp ?r1 ?r2 = Fin 0" "?cmp ?r2 ?r3 = Fin 0" "?cmp ?r1 ?r3 = Fin 1"
    by (simp_all add: order_defs)
  have s: "selection ?cfg filters = []" "selection ?cfg groupBy = []"
    "selection ?cfg orderBy = ?specs"
    by (simp_all add: selection_def)
  have "processData small_numbers [?r1, ?r2, ?r3] ?cfg = Inr [?r1, ?r2, ?r3]"
    unfolding stage_defs s by (simp add: c del: compare_rows.simps)
  with c show ?thesis
    by simp
qed


end
